theory Spec2Isabelle
  imports Complex_Main "HOL-Library.Sublist"
begin

section \<open>Threat-level heuristic of \<open>src/lib/ipAnalysis.ts\<close>\<close>

text \<open>
  The return type \<open>'low' | 'medium' | 'high'\<close> of \<open>IPAnalysisEngine.assessThreatLevel\<close>.
\<close>

datatype threat_level = Low | Medium | High

text \<open>The three hardcoded lists of the helper methods (lines 457-470).\<close>

definition knownBadIPs :: "string list" where
  "knownBadIPs = [''95.223.57.198'', ''185.220.101.1'', ''46.166.139.111'']"

definition suspiciousRanges :: "string list" where
  "suspiciousRanges = [''95.223.'', ''185.220.'', ''46.166.'']"

text \<open>\<open>knownBadIPs.includes(ip)\<close>\<close>

definition isKnownMaliciousIP :: "string \<Rightarrow> bool" where
  "isKnownMaliciousIP ip = (ip \<in> set knownBadIPs)"

text \<open>\<open>suspiciousRanges.some(range => ip.startsWith(range))\<close>\<close>

definition isSuspiciousRange :: "string \<Rightarrow> bool" where
  "isSuspiciousRange ip = list_ex (\<lambda>range. prefix range ip) suspiciousRanges"

text \<open>\<open>return this.isSuspiciousRange(ip)\<close>\<close>

definition isDatacenterIP :: "string \<Rightarrow> bool" where
  "isDatacenterIP ip = isSuspiciousRange ip"

text \<open>
  \<open>assessThreatLevel\<close> (lines 252-267): the mutable \<open>score\<close> is threaded through the
  three conditional increments, then bucketed.
\<close>

definition assessThreatLevel :: "string \<Rightarrow> threat_level" where
  "assessThreatLevel ip =
     (let score = (0::int);
          score = (if isKnownMaliciousIP ip then score + 5 else score);
          score = (if isSuspiciousRange ip then score + 3 else score);
          score = (if isDatacenterIP ip then score + 2 else score)
      in if score \<ge> 5 then High
         else if score \<ge> 2 then Medium
         else Low)"

text \<open>
  The weighted sum as the specification words it: each check contributes its weight when
  it holds and nothing otherwise.
\<close>

definition weighted_score :: "string \<Rightarrow> int" where
  "weighted_score ip =
     5 * of_bool (isKnownMaliciousIP ip) + 3 * of_bool (isSuspiciousRange ip)
       + 2 * of_bool (isDatacenterIP ip)"

section \<open>The geolocation proxy of \<open>netlify/functions/ip-proxy.js\<close>\<close>

subsection \<open>JSON texts and JavaScript values\<close>

text \<open>
  A JSON text by its abstract syntax: the members of an object in the order written,
  repeated keys included; a number literal by the rational it denotes and a string
  literal by the string it denotes. White space, escapes and the spelling of a number are
  not part of it.
\<close>

datatype json_text =
    TNull
  | TBool bool
  | TNumber rat
  | TString string
  | TArray "json_text list"
  | TObject "(string \<times> json_text) list"

text \<open>
  A JavaScript number that \<open>JSON.parse\<close> can produce: a finite double, by the rational it
  is (zero stands for both zeros), or an infinity.
\<close>

datatype double = Finite rat | Infinity | Minus_infinity

text \<open>
  The JavaScript values that \<open>JSON.parse\<close> produces; an object by its own properties in
  property order.
\<close>

datatype json =
    JNull
  | JBool bool
  | JNumber double
  | JString string
  | JArray "json list"
  | JObject "(string \<times> json) list"

text \<open>
  Property keys that are array indices (canonical decimal numerals below \<open>2^32 - 1\<close>) come
  first in an object, in ascending order; the other keys follow in the order of their
  creation.
\<close>

definition is_digit :: "char \<Rightarrow> bool" where
  "is_digit c = (c \<in> set ''0123456789'')"

definition digits_value :: "string \<Rightarrow> int" where
  "digits_value s = fold (\<lambda>c n. 10 * n + (of_char c - 48)) s 0"

definition array_index :: "string \<Rightarrow> int option" where
  "array_index s =
     (if s \<noteq> [] \<and> list_all is_digit s \<and> (s = ''0'' \<or> hd s \<noteq> CHR ''0'') \<and>
         digits_value s < 4294967295
      then Some (digits_value s) else None)"

fun insert_property :: "string \<Rightarrow> 'v \<Rightarrow> (string \<times> 'v) list \<Rightarrow> (string \<times> 'v) list" where
  "insert_property k v [] = [(k, v)]"
| "insert_property k v ((k', v') # ps) =
     (case array_index k of
        None \<Rightarrow> (k', v') # insert_property k v ps
      | Some i \<Rightarrow>
          (case array_index k' of
             None \<Rightarrow> (k, v) # (k', v') # ps
           | Some j \<Rightarrow> if i < j then (k, v) # (k', v') # ps
                      else (k', v') # insert_property k v ps))"

text \<open>
  Defining an own property, as \<open>JSON.parse\<close> does for each member: an existing key keeps
  its place and takes the new value.
\<close>

definition set_property :: "string \<Rightarrow> 'v \<Rightarrow> (string \<times> 'v) list \<Rightarrow> (string \<times> 'v) list" where
  "set_property k v ps =
     (if k \<in> set (map fst ps) then map (\<lambda>(k', v'). if k' = k then (k', v) else (k', v')) ps
      else insert_property k v ps)"

text \<open>
  The value of a JSON text. \<open>to_double\<close> is the rounding of a number literal to a double
  (to an infinity when it overflows).
\<close>

fun to_value :: "(rat \<Rightarrow> double) \<Rightarrow> json_text \<Rightarrow> json" where
  "to_value to_double TNull = JNull"
| "to_value to_double (TBool b) = JBool b"
| "to_value to_double (TNumber q) = JNumber (to_double q)"
| "to_value to_double (TString s) = JString s"
| "to_value to_double (TArray ts) = JArray (map (to_value to_double) ts)"
| "to_value to_double (TObject ms) =
     JObject (fold (\<lambda>(k, v). set_property k v)
                (map (\<lambda>(k, t). (k, to_value to_double t)) ms) [])"

text \<open>
  \<open>JSON.stringify\<close> of such a value, as the abstract syntax of the text it returns: an
  infinity is written \<open>null\<close>.
\<close>

fun JSON_stringify :: "json \<Rightarrow> json_text" where
  "JSON_stringify JNull = TNull"
| "JSON_stringify (JBool b) = TBool b"
| "JSON_stringify (JNumber (Finite q)) = TNumber q"
| "JSON_stringify (JNumber Infinity) = TNull"
| "JSON_stringify (JNumber Minus_infinity) = TNull"
| "JSON_stringify (JString s) = TString s"
| "JSON_stringify (JArray xs) = TArray (map JSON_stringify xs)"
| "JSON_stringify (JObject ps) = TObject (map (\<lambda>(k, v). (k, JSON_stringify v)) ps)"

text \<open>The exceptions that can reach the \<open>catch\<close> block of the handler.\<close>

datatype js_error =
    SyntaxError
  | NetworkError
  | HttpError nat
  | BodyError

text \<open>
  \<open>JSON.parse\<close> of a string, where \<open>read\<close> gives the abstract syntax of a string that is a
  JSON text and \<open>None\<close> for any other string.
\<close>

definition JSON_parse_by ::
  "(string \<Rightarrow> json_text option) \<Rightarrow> (rat \<Rightarrow> double) \<Rightarrow> string \<Rightarrow> js_error + json" where
  "JSON_parse_by read to_double s =
     (case read s of None \<Rightarrow> Inl SyntaxError | Some t \<Rightarrow> Inr (to_value to_double t))"


subsection \<open>The handler\<close>

text \<open>
  A body is either a literal string or a JSON text, given by its abstract syntax.
\<close>

datatype body_text = Literal string | JSON_text json_text

record event =
  httpMethod :: string
  body :: string

record response =
  statusCode :: nat
  headers :: "(string \<times> string) list"
  body :: body_text

text \<open>
  The upstream call: the request \<open>fetch\<close> is given (\<open>request_method\<close> is its \<open>method\<close>
  option), and what it answers.
\<close>

record fetch_request =
  url :: string
  request_method :: string
  headers :: "(string \<times> string) list"
  body :: body_text

text \<open>
  \<open>ok\<close> and \<open>status\<close> of the upstream response, and the text of its body (or the error
  that reading the body rejects with).
\<close>

record fetch_response =
  ok :: bool
  status :: nat
  response_text :: "js_error + string"

text \<open>What the handler does besides returning: upstream requests and console output.\<close>

datatype effect = Fetch fetch_request | ConsoleError js_error

definition cors_headers :: "(string \<times> string) list" where
  "cors_headers =
     [(''Access-Control-Allow-Origin'', ''*''),
      (''Access-Control-Allow-Headers'', ''Content-Type''),
      (''Access-Control-Allow-Methods'', ''GET, POST, OPTIONS''),
      (''Content-Type'', ''application/json'')]"

definition batch_url :: string where
  "batch_url = ''http://ip-api.com/batch?fields=status,message,continent,continentCode,country,countryCode,region,regionName,city,district,zip,lat,lon,timezone,offset,currency,isp,org,as,asname,reverse,mobile,proxy,hosting,query''"

definition upstream_request :: "json \<Rightarrow> fetch_request" where
  "upstream_request requestBody =
     \<lparr>url = batch_url, request_method = ''POST'',
      headers = [(''Content-Type'', ''application/json'')],
      body = JSON_text (JSON_stringify requestBody)\<rparr>"

text \<open>JavaScript truthiness of a parsed value (\<open>!requestBody\<close>).\<close>

fun truthy :: "json \<Rightarrow> bool" where
  "truthy JNull = False"
| "truthy (JBool b) = b"
| "truthy (JNumber n) = (n \<noteq> Finite 0)"
| "truthy (JString s) = (s \<noteq> [])"
| "truthy (JArray xs) = True"
| "truthy (JObject kvs) = True"

fun isArray :: "json \<Rightarrow> bool" where
  "isArray (JArray xs) = True"
| "isArray _ = False"

fun array_length :: "json \<Rightarrow> nat" where
  "array_length (JArray xs) = length xs"
| "array_length _ = 0"

definition error_response :: "nat \<Rightarrow> (string \<times> json) list \<Rightarrow> response" where
  "error_response code members =
     \<lparr>statusCode = code, headers = cors_headers,
      body = JSON_text (JSON_stringify (JObject members))\<rparr>"

text \<open>
  \<open>response.json()\<close>: the body is read and parsed as \<open>JSON.parse\<close> parses a string.
\<close>

definition response_json :: "(string \<Rightarrow> js_error + json) \<Rightarrow> fetch_response \<Rightarrow> js_error + json" where
  "response_json JSON_parse resp =
     (case response_text resp of Inl e \<Rightarrow> Inl e | Inr s \<Rightarrow> JSON_parse s)"

text \<open>
  The \<open>try\<close> block (lines 31-72): an exception is \<open>Inl\<close>, a returned response \<open>Inr\<close>; the
  second component lists the upstream requests issued so far. \<open>JSON_parse\<close> and \<open>fetch\<close>
  are the two library calls, given as functions of their argument.
\<close>

definition handler_try ::
  "(string \<Rightarrow> js_error + json) \<Rightarrow> (fetch_request \<Rightarrow> js_error + fetch_response) \<Rightarrow>
   event \<Rightarrow> (js_error + response) \<times> effect list" where
  "handler_try JSON_parse fetch ev =
     (case JSON_parse (event.body ev) of
        Inl e \<Rightarrow> (Inl e, [])
      | Inr requestBody \<Rightarrow>
          if \<not> truthy requestBody \<or> \<not> isArray requestBody then
            (Inr (error_response 400
               [(''error'', JString ''Invalid request body. Expected array of IP queries.'')]), [])
          else if array_length requestBody > 50 then
            (Inr (error_response 400
               [(''error'', JString ''Too many IPs. Maximum 50 allowed.'')]), [])
          else
            (case fetch (upstream_request requestBody) of
               Inl e \<Rightarrow> (Inl e, [Fetch (upstream_request requestBody)])
             | Inr resp \<Rightarrow>
                 if \<not> ok resp then
                   (Inl (HttpError (status resp)), [Fetch (upstream_request requestBody)])
                 else
                   (case response_json JSON_parse resp of
                      Inl e \<Rightarrow> (Inl e, [Fetch (upstream_request requestBody)])
                    | Inr data \<Rightarrow>
                        (Inr \<lparr>statusCode = 200, headers = cors_headers,
                              body = JSON_text (JSON_stringify data)\<rparr>,
                         [Fetch (upstream_request requestBody)]))))"

text \<open>The response of the \<open>catch\<close> block (lines 77-84).\<close>

definition internal_error :: response where
  "internal_error =
     error_response 500
       [(''error'', JString ''Internal server error''),
        (''message'', JString ''Failed to analyze IP addresses'')]"

text \<open>
  The whole handler (lines 4-85): preflight, method check, then the \<open>try\<close> block with
  its \<open>catch\<close>, which logs the error and answers with the generic 500.
\<close>

definition handler ::
  "(string \<Rightarrow> js_error + json) \<Rightarrow> (fetch_request \<Rightarrow> js_error + fetch_response) \<Rightarrow>
   event \<Rightarrow> response \<times> effect list" where
  "handler JSON_parse fetch ev =
     (if httpMethod ev = ''OPTIONS'' then
        (\<lparr>statusCode = 200, headers = cors_headers, body = Literal []\<rparr>, [])
      else if httpMethod ev \<noteq> ''POST'' then
        (error_response 405 [(''error'', JString ''Method not allowed'')], [])
      else
        (case handler_try JSON_parse fetch ev of
           (Inl e, effects) \<Rightarrow> (internal_error, effects @ [ConsoleError e])
         | (Inr r, effects) \<Rightarrow> (r, effects)))"

text \<open>The upstream requests among the effects of a run.\<close>

fun upstream_requests :: "effect list \<Rightarrow> fetch_request list" where
  "upstream_requests [] = []"
| "upstream_requests (Fetch r # es) = r # upstream_requests es"
| "upstream_requests (ConsoleError e # es) = upstream_requests es"

text \<open>
  Sample surroundings: a reader that knows four strings, a rounding that is exact below
  the overflow threshold of doubles and gives an infinity from there on, and an upstream
  that answers every request with status 200 and a given body.
\<close>

definition sample_read :: "string \<Rightarrow> json_text option" where
  "sample_read s =
     (if s = ''[]'' then Some (TArray [])
      else if s = ''[null]'' then Some (TArray [TNull])
      else if s = ''[1e400]'' then Some (TArray [TNumber (10 ^ 400)])
      else if s = ''[1, 2]'' then Some (TArray [TNumber 1, TNumber 2])
      else None)"

definition overflow_to_infinity :: "rat \<Rightarrow> double" where
  "overflow_to_infinity q =
     (if 2 ^ 1024 \<le> q then Infinity else if q \<le> - (2 ^ 1024) then Minus_infinity else Finite q)"


section \<open>Batch analysis of \<open>src/lib/ipAnalysis.ts\<close>\<close>

text \<open>
  The fields of \<open>IPAnalysisResult\<close> that \<open>calculateStatistics\<close> and \<open>detectPatterns\<close> read,
  named by their path in the nested interface (\<open>location.country\<close>, \<open>network.isp\<close>, ...).
\<close>

datatype ip_type = Residential | Datacenter | Corporate | Mobile | UnknownType

record IPAnalysisResult =
  ip :: string
  location_country :: string
  network_isp :: string
  network_ipType :: ip_type
  security_threatLevel :: threat_level
  blacklistStatus_isBlacklisted :: bool
  vpnTorStatus_isVPN :: bool
  vpnTorStatus_isTor :: bool

text \<open>
  The counting objects (\<open>{ [key: string]: number }\<close>) start as \<open>{}\<close>. The keys of
  \<open>byThreatLevel\<close> and \<open>byIPType\<close> are the literals of their union types, none of which
  is an array index or a member of \<open>Object.prototype\<close>: these objects are association
  lists in insertion order, as are the \<open>Map\<close>s. The keys of \<open>byCountry\<close> are arbitrary
  strings: it is an object by its own properties in property order, and a property holds
  a number or a string (see \<open>increment_property\<close>).
\<close>

datatype count_value = Count nat | Member_text string nat

record statistics =
  stats_total :: nat
  byThreatLevel :: "(threat_level \<times> nat) list"
  byCountry :: "(string \<times> count_value) list"
  byIPType :: "(ip_type \<times> nat) list"
  blacklisted :: nat
  vpnTor :: nat
  suspicious :: nat

record geographicCluster =
  cluster_country :: string
  cluster_count :: nat
  cluster_ips :: "string list"

record patterns =
  suspiciousRanges_found :: "string list"
  commonISPs :: "string list"
  geographicClusters :: "geographicCluster list"

record IPBatchAnalysis =
  results :: "IPAnalysisResult list"
  batch_statistics :: statistics
  batch_patterns :: patterns

text \<open>
  \<open>m[k] = (m[k] || 0) + 1\<close> for keys that \<open>{}\<close> does not inherit, and
  \<open>m.set(k, (m.get(k) || 0) + 1)\<close> on a \<open>Map\<close>.
\<close>

fun increment :: "'k \<Rightarrow> ('k \<times> nat) list \<Rightarrow> ('k \<times> nat) list" where
  "increment k [] = [(k, 1)]"
| "increment k ((k', c) # m) =
     (if k = k' then (k', c + 1) # m else (k', c) # increment k m)"

text \<open>
  \<open>m[k] = (m[k] || 0) + 1\<close> on an object created by \<open>{}\<close>, for any string \<open>k\<close>. The object
  inherits the members of \<open>Object.prototype\<close>: reading such a key that is no own property
  gives the inherited member, which is truthy, and \<open>+ 1\<close> makes a string of it, its text
  followed by \<open>1\<close>. \<open>Member_text k n\<close> is the text of the member \<open>k\<close> followed by \<open>n\<close>
  digits \<open>1\<close>. The assignment then creates an own property, except for \<open>__proto__\<close>,
  whose setter ignores a string.
\<close>

definition object_prototype_members :: "string list" where
  "object_prototype_members =
     [''constructor'', ''__defineGetter__'', ''__defineSetter__'', ''hasOwnProperty'',
      ''__lookupGetter__'', ''__lookupSetter__'', ''isPrototypeOf'',
      ''propertyIsEnumerable'', ''toString'', ''valueOf'', ''__proto__'',
      ''toLocaleString'']"

definition increment_property ::
  "string \<Rightarrow> (string \<times> count_value) list \<Rightarrow> (string \<times> count_value) list" where
  "increment_property k obj =
     (case map_of obj k of
        Some (Count n) \<Rightarrow> set_property k (Count (n + 1)) obj
      | Some (Member_text member n) \<Rightarrow> set_property k (Member_text member (n + 1)) obj
      | None \<Rightarrow>
          if k = ''__proto__'' then obj
          else if k \<in> set object_prototype_members then set_property k (Member_text k 1) obj
          else set_property k (Count 1) obj)"

text \<open>\<open>if (!m.has(k)) m.set(k, []); m.get(k).push(v)\<close>\<close>

fun push_to_group :: "'k \<Rightarrow> 'v \<Rightarrow> ('k \<times> 'v list) list \<Rightarrow> ('k \<times> 'v list) list" where
  "push_to_group k v [] = [(k, [v])]"
| "push_to_group k v ((k', vs) # m) =
     (if k = k' then (k', vs @ [v]) # m else (k', vs) # push_to_group k v m)"

text \<open>The body of the \<open>forEach\<close> of \<open>calculateStatistics\<close> (lines 327-355).\<close>

definition count_result :: "IPAnalysisResult \<Rightarrow> statistics \<Rightarrow> statistics" where
  "count_result result stats =
     stats\<lparr>byThreatLevel := increment (security_threatLevel result) (byThreatLevel stats),
           byCountry := increment_property (location_country result) (byCountry stats),
           byIPType := increment (network_ipType result) (byIPType stats),
           blacklisted :=
             (if blacklistStatus_isBlacklisted result then blacklisted stats + 1
              else blacklisted stats),
           vpnTor :=
             (if vpnTorStatus_isVPN result \<or> vpnTorStatus_isTor result then vpnTor stats + 1
              else vpnTor stats),
           suspicious :=
             (if security_threatLevel result \<noteq> Low then suspicious stats + 1
              else suspicious stats)\<rparr>"

definition calculateStatistics :: "IPAnalysisResult list \<Rightarrow> statistics" where
  "calculateStatistics rs =
     fold count_result rs
       \<lparr>stats_total = length rs, byThreatLevel = [], byCountry = [], byIPType = [],
        blacklisted = 0, vpnTor = 0, suspicious = 0\<rparr>"

text \<open>\<open>s.split(c)\<close> and \<open>parts.join(sep)\<close> of JavaScript.\<close>

fun split_on :: "char \<Rightarrow> string \<Rightarrow> string list" where
  "split_on c [] = [[]]"
| "split_on c (x # xs) =
     (if x = c then [] # split_on c xs
      else (case split_on c xs of
              [] \<Rightarrow> [[x]]
            | w # ws \<Rightarrow> (x # w) # ws))"

fun join :: "string \<Rightarrow> string list \<Rightarrow> string" where
  "join sep [] = []"
| "join sep [w] = w"
| "join sep (w # v # ws) = w @ sep @ join sep (v # ws)"

text \<open>\<open>result.ip.split('.').slice(0, 3).join('.') + '.0/24'\<close>\<close>

definition range_of :: "string \<Rightarrow> string" where
  "range_of a = join ''.'' (take 3 (split_on (CHR ''.'') a)) @ ''.0/24''"

text \<open>
  \<open>detectPatterns\<close> (lines 361-426). \<open>Array.prototype.sort\<close> is stable, and so is
  \<^const>\<open>sort_key\<close>; sorting by the negated count gives the descending order of the
  comparators \<open>b - a\<close>.
\<close>

definition detectPatterns :: "IPAnalysisResult list \<Rightarrow> patterns" where
  "detectPatterns rs =
     (let ipRanges = fold (\<lambda>result. push_to_group (range_of (ip result)) (ip result)) rs [];
          ispCount = fold (\<lambda>result. increment (network_isp result)) rs [];
          countryGroups =
            fold (\<lambda>result. push_to_group (location_country result) (ip result)) rs []
      in \<lparr>suspiciousRanges_found = map fst (filter (\<lambda>(range, ips). length ips > 1) ipRanges),
          commonISPs = map fst (take 5 (sort_key (\<lambda>(isp, n). - int n) ispCount)),
          geographicClusters =
            sort_key (\<lambda>cl. - int (cluster_count cl))
              (map (\<lambda>(country, ips).
                      \<lparr>cluster_country = country, cluster_count = length ips,
                       cluster_ips = ips\<rparr>) countryGroups)\<rparr>)"

text \<open>
  The loop of \<open>analyzeBatch\<close> (lines 180-187). \<open>this.analyzeIP\<close> is the function
  \<open>analyzeIP\<close>: \<open>Inl\<close> when the awaited call throws, \<open>Inr\<close> its result. The second
  accumulator is what the \<open>catch\<close> clause writes to the console.
\<close>

fun analyzeBatch_loop ::
  "(string \<Rightarrow> 'e + IPAnalysisResult) \<Rightarrow> string list \<Rightarrow>
   IPAnalysisResult list \<Rightarrow> (string \<times> 'e) list \<Rightarrow>
   IPAnalysisResult list \<times> (string \<times> 'e) list" where
  "analyzeBatch_loop analyzeIP [] rs logged = (rs, logged)"
| "analyzeBatch_loop analyzeIP (a # ips) rs logged =
     (case analyzeIP a of
        Inr result \<Rightarrow> analyzeBatch_loop analyzeIP ips (rs @ [result]) logged
      | Inl error \<Rightarrow> analyzeBatch_loop analyzeIP ips rs (logged @ [(a, error)]))"

text \<open>
  \<open>analyzeBatch\<close> (lines 177-194): the outcome of the returned promise (\<open>Inl\<close> a
  rejection, \<open>Inr\<close> the resolved value) and the console output.
\<close>

definition analyzeBatch ::
  "(string \<Rightarrow> 'e + IPAnalysisResult) \<Rightarrow> string list \<Rightarrow>
   ('e + IPBatchAnalysis) \<times> (string \<times> 'e) list" where
  "analyzeBatch analyzeIP ips =
     (case analyzeBatch_loop analyzeIP ips [] [] of
        (rs, logged) \<Rightarrow>
          (Inr \<lparr>results = rs, batch_statistics = calculateStatistics rs,
                batch_patterns = detectPatterns rs\<rparr>, logged))"

section \<open>Unread alerts of \<open>src/lib/alertSystem.ts\<close>\<close>

text \<open>
  A \<open>timestamptz\<close> is a count of microseconds. Columns of a table are prefixed with a tag
  of their table, since several tables share column names; a nullable column is an
  option.
\<close>

type_synonym timestamptz = int
type_synonym uuid = nat

datatype alert_type = Suspicious_ip | High_risk_program | Performance_critical | Duplicate_detected

datatype alert_severity = Info | Warning | Critical

text \<open>A row of \<open>alert_notifications\<close> (\<open>related_data\<close>, an opaque \<open>jsonb\<close>, is left out).\<close>

record AlertNotification =
  alert_id :: uuid
  alert_user_id :: "uuid option"
  alert_alert_type :: alert_type
  alert_title :: string
  alert_message :: string
  alert_severity :: "alert_severity option"
  alert_is_read :: "bool option"
  alert_created_at :: "timestamptz option"
  alert_expires_at :: "timestamptz option"

text \<open>The filters \<open>.eq(column, value)\<close> and \<open>.lt(column, value)\<close>: a NULL never passes.\<close>

definition eq_filter :: "'a option \<Rightarrow> 'a \<Rightarrow> bool" where
  "eq_filter column v = (case column of None \<Rightarrow> False | Some x \<Rightarrow> x = v)"

definition lt_filter :: "timestamptz option \<Rightarrow> timestamptz \<Rightarrow> bool" where
  "lt_filter column v = (case column of None \<Rightarrow> False | Some x \<Rightarrow> x < v)"

text \<open>
  \<open>.order('created_at', { ascending: false })\<close>: descending, NULLs first (the default
  of a descending order).
\<close>

definition order_created_at_desc :: "AlertNotification list \<Rightarrow> AlertNotification list" where
  "order_created_at_desc rows =
     filter (\<lambda>a. alert_created_at a = None) rows @
     sort_key (\<lambda>a. - the (alert_created_at a)) (filter (\<lambda>a. alert_created_at a \<noteq> None) rows)"

text \<open>
  \<open>getUnreadAlerts\<close> (lines 72-87). The first argument is what the request meets: \<open>Inl\<close>
  an error of the client call (thrown, caught, logged, answered with \<open>[]\<close>), \<open>Inr\<close> the
  rows of \<open>alert_notifications\<close> the caller can select. The second is the time read by
  \<open>new Date()\<close>.
\<close>

definition getUnreadAlerts ::
  "'e + AlertNotification list \<Rightarrow> timestamptz \<Rightarrow> AlertNotification list" where
  "getUnreadAlerts table now =
     (case table of
        Inl error \<Rightarrow> []
      | Inr rows \<Rightarrow>
          order_created_at_desc
            (filter (\<lambda>a. eq_filter (alert_is_read a) False \<and> lt_filter (alert_expires_at a) now)
               rows))"

section \<open>Visitor tracking: tables and triggers of migration \<open>20250619175042\<close>\<close>

text \<open>
  The columns of \<open>visitor_ip_logs\<close> that the two trigger functions read or write. An
  \<open>inet\<close> is identified with its text form; \<open>numeric\<close> and \<open>double precision\<close> values are
  real numbers, and the rounding of double precision arithmetic is a parameter. The row
  handed to an insert already carries the column defaults (\<open>id\<close>, \<open>created_at\<close>) where
  the statement gave no value.
\<close>

type_synonym inet = string

record visitor_ip_log =
  log_id :: uuid
  log_tracking_link_id :: "uuid option"
  log_ip_address :: inet
  log_user_agent :: "string option"
  log_country :: "string option"
  log_city :: "string option"
  log_latitude :: "real option"
  log_longitude :: "real option"
  log_is_hosting :: "bool option"
  log_is_tor :: "bool option"
  log_is_vpn :: "bool option"
  log_session_id :: "string option"
  log_page_views :: "int option"
  log_is_suspicious :: "bool option"
  log_anomaly_score :: "real option"
  log_created_at :: "timestamptz option"

text \<open>
  \<open>visitor_sessions\<close>: \<open>session_id\<close> and \<open>ip_address\<close> are \<open>NOT NULL\<close>; the three \<open>text[]\<close>
  columns are arrays whose elements may be NULL.
\<close>

record visitor_session =
  vs_id :: uuid
  vs_tracking_link_id :: "uuid option"
  vs_session_id :: string
  vs_ip_address :: inet
  vs_first_visit :: "timestamptz option"
  vs_last_visit :: "timestamptz option"
  vs_total_visits :: "int option"
  vs_total_page_views :: "int option"
  vs_unique_ips :: "string option list"
  vs_countries :: "string option list"
  vs_user_agents :: "string option list"
  vs_is_suspicious :: "bool option"

text \<open>
  \<open>ip_anomaly_detection\<close>. The \<open>CHECK\<close> lists of \<open>anomaly_type\<close> and \<open>severity\<close> are
  datatypes. The description texts and the \<open>jsonb\<close> evidence objects are constructors
  carrying the values the trigger formats into them.
\<close>

datatype anomaly_type =
    Rapid_location_change | Suspicious_ip_range | Tor_usage | Vpn_usage | Datacenter_ip
  | Blacklisted_ip | Unusual_user_agent | High_frequency_access | Geographic_anomaly
  | Time_anomaly

datatype severity = Severity_low | Severity_medium | Severity_high | Severity_critical

datatype description =
    Tor_exit_node_visit
  | Vpn_server_visit
  | Datacenter_ip_visit
  | Rapid_change_of_location real timestamptz

datatype evidence =
    Tor_detected inet
  | Vpn_detected inet
  | Hosting_detected inet
  | Location_change (distance_km_found: real) (time_diff_minutes: real)
      (prev_location: "string option \<times> string option")
      (new_location: "string option \<times> string option")

record ip_anomaly =
  an_visitor_log_id :: uuid
  an_tracking_link_id :: "uuid option"
  an_anomaly_type :: anomaly_type
  an_severity :: severity
  an_description :: description
  an_confidence_score :: real
  an_evidence :: evidence

subsection \<open>SQL comparisons on nullable values\<close>

text \<open>
  A \<open>WHERE\<close> clause keeps a row, and an \<open>IF\<close> takes its branch, only when the condition is
  true; a comparison with NULL is not. These functions say when a comparison is true.
\<close>

definition sql_eq :: "'a option \<Rightarrow> 'a option \<Rightarrow> bool" where
  "sql_eq a b = (case a of None \<Rightarrow> False | Some x \<Rightarrow> (case b of None \<Rightarrow> False | Some y \<Rightarrow> x = y))"

definition sql_minus :: "timestamptz option \<Rightarrow> timestamptz option \<Rightarrow> timestamptz option" where
  "sql_minus a b = (case a of None \<Rightarrow> None | Some x \<Rightarrow> (case b of None \<Rightarrow> None | Some y \<Rightarrow> Some (x - y)))"

definition sql_less :: "timestamptz option \<Rightarrow> timestamptz \<Rightarrow> bool" where
  "sql_less a v = (case a of None \<Rightarrow> False | Some x \<Rightarrow> x < v)"

definition sql_plus :: "int option \<Rightarrow> int option \<Rightarrow> int option" where
  "sql_plus a b = (case a of None \<Rightarrow> None | Some x \<Rightarrow> (case b of None \<Rightarrow> None | Some y \<Rightarrow> Some (x + y)))"

text \<open>Three-valued \<open>OR\<close>.\<close>

definition sql_or :: "bool option \<Rightarrow> bool option \<Rightarrow> bool option" where
  "sql_or a b =
     (if a = Some True \<or> b = Some True then Some True
      else if a = Some False \<and> b = Some False then Some False
      else None)"

text \<open>\<open>v = ANY(array)\<close> is true when \<open>v\<close> is not NULL and equals an element.\<close>

definition sql_any :: "string option \<Rightarrow> string option list \<Rightarrow> bool" where
  "sql_any v array = (case v of None \<Rightarrow> False | Some x \<Rightarrow> Some x \<in> set array)"

definition one_hour :: timestamptz where
  "one_hour = 3600000000"

subsection \<open>The trigger function \<open>detect_ip_anomalies\<close> (lines 210-304)\<close>

text \<open>Errors that abort the inserting statement, by their SQLSTATE class.\<close>

datatype sql_error =
    Not_null_violation
  | Unique_violation
  | Foreign_key_violation
  | Numeric_value_out_of_range

text \<open>Running the next statement when the one before raised no error.\<close>

definition and_then :: "sql_error + 'a \<Rightarrow> ('a \<Rightarrow> sql_error + 'b) \<Rightarrow> sql_error + 'b" where
  "and_then m f = (case m of Inl e \<Rightarrow> Inl e | Inr x \<Rightarrow> f x)"

text \<open>
  Double precision arithmetic as the server computes it: the casts from and to
  \<open>numeric\<close>, the three operations of the formula, and the functions \<open>radians\<close>, \<open>cos\<close>,
  \<open>sin\<close> and \<open>acos\<close> (on arguments in its domain). Each rounds its result in a way
  that this development leaves open; \<open>exact\<close> is the arithmetic that does not round.
\<close>

record double_precision =
  dp_of_numeric :: "real \<Rightarrow> real"
  dp_to_numeric :: "real \<Rightarrow> real"
  dp_mul :: "real \<Rightarrow> real \<Rightarrow> real"
  dp_add :: "real \<Rightarrow> real \<Rightarrow> real"
  dp_sub :: "real \<Rightarrow> real \<Rightarrow> real"
  dp_radians :: "real \<Rightarrow> real"
  dp_cos :: "real \<Rightarrow> real"
  dp_sin :: "real \<Rightarrow> real"
  dp_acos :: "real \<Rightarrow> real"

definition exact :: double_precision where
  "exact =
     \<lparr>dp_of_numeric = (\<lambda>x. x), dp_to_numeric = (\<lambda>x. x),
      dp_mul = (\<lambda>x y. x * y), dp_add = (\<lambda>x y. x + y), dp_sub = (\<lambda>x y. x - y),
      dp_radians = (\<lambda>d. d * pi / 180), dp_cos = cos, dp_sin = sin, dp_acos = arccos\<rparr>"

text \<open>
  The distance formula of lines 272-276. \<open>acos\<close> raises an error for an argument outside
  of [-1, 1], which rounding can produce.
\<close>

definition distance_km ::
  "double_precision \<Rightarrow> real \<Rightarrow> real \<Rightarrow> real \<Rightarrow> real \<Rightarrow> sql_error + real" where
  "distance_km dp prev_latitude prev_longitude new_latitude new_longitude =
     (let prev_lat = dp_radians dp (dp_of_numeric dp prev_latitude);
          prev_lon = dp_radians dp (dp_of_numeric dp prev_longitude);
          new_lat = dp_radians dp (dp_of_numeric dp new_latitude);
          new_lon = dp_radians dp (dp_of_numeric dp new_longitude);
          argument =
            dp_add dp
              (dp_mul dp (dp_mul dp (dp_cos dp prev_lat) (dp_cos dp new_lat))
                 (dp_cos dp (dp_sub dp new_lon prev_lon)))
              (dp_mul dp (dp_sin dp prev_lat) (dp_sin dp new_lat))
      in if argument < - 1 \<or> 1 < argument then Inl Numeric_value_out_of_range
         else Inr (dp_to_numeric dp (dp_mul dp 6371 (dp_acos dp argument))))"

text \<open>The \<open>WHERE\<close> clause of the query for the previous visit (lines 260-264).\<close>

definition prev_visit_where :: "visitor_ip_log \<Rightarrow> visitor_ip_log \<Rightarrow> bool" where
  "prev_visit_where new r =
     (sql_eq (log_tracking_link_id r) (log_tracking_link_id new) \<and>
      sql_eq (log_session_id r) (log_session_id new) \<and>
      log_id r \<noteq> log_id new \<and>
      log_latitude r \<noteq> None \<and>
      log_longitude r \<noteq> None)"

text \<open>
  \<open>ORDER BY created_at DESC\<close>: a NULL sorts before every value, then greater before
  smaller. \<open>comes_first r b\<close> says that \<open>r\<close> may stand before \<open>b\<close>.
\<close>

definition comes_first :: "visitor_ip_log \<Rightarrow> visitor_ip_log \<Rightarrow> bool" where
  "comes_first r b =
     (case log_created_at r of
        None \<Rightarrow> True
      | Some t \<Rightarrow> (case log_created_at b of None \<Rightarrow> False | Some u \<Rightarrow> u \<le> t))"

text \<open>
  \<open>ORDER BY created_at DESC LIMIT 1\<close>. Among rows the order does not separate, SQL leaves
  the choice open; the list stands for the order in which the rows reach the sort, and
  the first of them is taken.
\<close>

fun order_by_created_at_desc_limit_1 :: "visitor_ip_log list \<Rightarrow> visitor_ip_log option" where
  "order_by_created_at_desc_limit_1 [] = None"
| "order_by_created_at_desc_limit_1 (r # rs) =
     (case order_by_created_at_desc_limit_1 rs of
        None \<Rightarrow> Some r
      | Some b \<Rightarrow> if comes_first r b then Some r else Some b)"

definition select_prev_visit :: "visitor_ip_log list \<Rightarrow> visitor_ip_log \<Rightarrow> visitor_ip_log option" where
  "select_prev_visit seen new =
     order_by_created_at_desc_limit_1 (filter (prev_visit_where new) seen)"

text \<open>
  \<open>INSERT INTO ip_anomaly_detection\<close>, followed by \<open>anomaly_count := anomaly_count + 1\<close>.
  The column \<open>visitor_log_id\<close> references \<open>visitor_ip_logs(id)\<close> (line 94), and the check
  is made when the \<open>INSERT\<close> ends, against the rows the table holds then. The trigger
  fires \<open>BEFORE INSERT\<close> (lines 307-310), so the row \<open>NEW\<close> is not among them yet.
  (\<open>ip_tracking_links\<close> is not part of this development: the links that rows refer to
  are taken to exist.)
\<close>

definition insert_anomaly ::
  "visitor_ip_log list \<Rightarrow> ip_anomaly \<Rightarrow> ip_anomaly list \<times> int \<Rightarrow>
   sql_error + ip_anomaly list \<times> int" where
  "insert_anomaly visitor_ip_logs a st =
     (case st of (inserted, anomaly_count) \<Rightarrow>
        if an_visitor_log_id a \<in> set (map log_id visitor_ip_logs)
        then Inr (inserted @ [a], anomaly_count + 1)
        else Inl Foreign_key_violation)"

text \<open>
  The four checks. Each takes the rows inserted into \<open>ip_anomaly_detection\<close> so far with
  the running \<open>anomaly_count\<close>, and returns them updated, or the error raised.
\<close>

definition check_tor ::
  "visitor_ip_log list \<Rightarrow> visitor_ip_log \<Rightarrow> ip_anomaly list \<times> int \<Rightarrow>
   sql_error + ip_anomaly list \<times> int" where
  "check_tor visitor_ip_logs new st =
     (if log_is_tor new = Some True then
        insert_anomaly visitor_ip_logs
          \<lparr>an_visitor_log_id = log_id new, an_tracking_link_id = log_tracking_link_id new,
           an_anomaly_type = Tor_usage, an_severity = Severity_high,
           an_description = Tor_exit_node_visit, an_confidence_score = 0.95,
           an_evidence = Tor_detected (log_ip_address new)\<rparr> st
      else Inr st)"

definition check_vpn ::
  "visitor_ip_log list \<Rightarrow> visitor_ip_log \<Rightarrow> ip_anomaly list \<times> int \<Rightarrow>
   sql_error + ip_anomaly list \<times> int" where
  "check_vpn visitor_ip_logs new st =
     (if log_is_vpn new = Some True then
        insert_anomaly visitor_ip_logs
          \<lparr>an_visitor_log_id = log_id new, an_tracking_link_id = log_tracking_link_id new,
           an_anomaly_type = Vpn_usage, an_severity = Severity_medium,
           an_description = Vpn_server_visit, an_confidence_score = 0.85,
           an_evidence = Vpn_detected (log_ip_address new)\<rparr> st
      else Inr st)"

definition check_hosting ::
  "visitor_ip_log list \<Rightarrow> visitor_ip_log \<Rightarrow> ip_anomaly list \<times> int \<Rightarrow>
   sql_error + ip_anomaly list \<times> int" where
  "check_hosting visitor_ip_logs new st =
     (if log_is_hosting new = Some True then
        insert_anomaly visitor_ip_logs
          \<lparr>an_visitor_log_id = log_id new, an_tracking_link_id = log_tracking_link_id new,
           an_anomaly_type = Datacenter_ip, an_severity = Severity_medium,
           an_description = Datacenter_ip_visit, an_confidence_score = 0.80,
           an_evidence = Hosting_detected (log_ip_address new)\<rparr> st
      else Inr st)"

text \<open>
  Lines 258-296. \<open>seen\<close> holds the rows of \<open>visitor_ip_logs\<close> that the query sees.
  \<open>prev_visit.id IS NOT NULL\<close> holds exactly when the query found a row. The distance is
  computed before the time is looked at. \<open>time_diff < interval '1 hour'\<close> is not true
  when either \<open>created_at\<close> is NULL.
\<close>

definition check_rapid_location_change ::
  "double_precision \<Rightarrow> visitor_ip_log list \<Rightarrow> visitor_ip_log list \<Rightarrow> visitor_ip_log \<Rightarrow>
   ip_anomaly list \<times> int \<Rightarrow> sql_error + ip_anomaly list \<times> int" where
  "check_rapid_location_change dp visitor_ip_logs seen new st =
     (case select_prev_visit seen new of
        None \<Rightarrow> Inr st
      | Some prev_visit \<Rightarrow>
          if log_latitude new \<noteq> None \<and> log_longitude new \<noteq> None then
            (let time_diff = sql_minus (log_created_at new) (log_created_at prev_visit)
             in and_then
                  (distance_km dp (the (log_latitude prev_visit)) (the (log_longitude prev_visit))
                     (the (log_latitude new)) (the (log_longitude new)))
                  (\<lambda>distance.
                     if sql_less time_diff one_hour \<and> distance > 500 then
                       insert_anomaly visitor_ip_logs
                         \<lparr>an_visitor_log_id = log_id new,
                          an_tracking_link_id = log_tracking_link_id new,
                          an_anomaly_type = Rapid_location_change,
                          an_severity = Severity_high,
                          an_description = Rapid_change_of_location distance (the time_diff),
                          an_confidence_score = 0.90,
                          an_evidence =
                            Location_change distance (real_of_int (the time_diff) / 60000000)
                              (log_city prev_visit, log_country prev_visit)
                              (log_city new, log_country new)\<rparr> st
                     else Inr st))
          else Inr st)"

text \<open>
  The trigger function: the rows it inserts into \<open>ip_anomaly_detection\<close> and the \<open>NEW\<close>
  row it returns, or the error that aborts it. The function is not \<open>SECURITY DEFINER\<close>,
  so its query reads \<open>visitor_ip_logs\<close> as the inserting role does: \<open>sees\<close> gives, of
  the rows of the table, those that role may select. The foreign key is checked
  against the whole table.
\<close>

definition detect_ip_anomalies ::
  "double_precision \<Rightarrow> (visitor_ip_log list \<Rightarrow> visitor_ip_log list) \<Rightarrow>
   visitor_ip_log list \<Rightarrow> visitor_ip_log \<Rightarrow> sql_error + ip_anomaly list \<times> visitor_ip_log" where
  "detect_ip_anomalies dp sees visitor_ip_logs new =
     and_then (check_tor visitor_ip_logs new ([], 0)) (\<lambda>st.
     and_then (check_vpn visitor_ip_logs new st) (\<lambda>st.
     and_then (check_hosting visitor_ip_logs new st) (\<lambda>st.
     and_then (check_rapid_location_change dp visitor_ip_logs (sees visitor_ip_logs) new st)
       (\<lambda>st. case st of (inserted, anomaly_count) \<Rightarrow>
          Inr (inserted,
               new\<lparr>log_anomaly_score := Some (min (real_of_int anomaly_count * 25) 100),
                   log_is_suspicious := Some (anomaly_count > 0)\<rparr>)))))"

subsection \<open>The trigger function \<open>update_visitor_session\<close> (lines 313-369)\<close>

text \<open>
  \<open>gen_random_uuid()\<close>, the default of \<open>visitor_sessions.id\<close>: a value that no row of the
  table has yet.
\<close>

definition gen_random_uuid :: "uuid list \<Rightarrow> uuid" where
  "gen_random_uuid used = Suc (fold max used 0)"

text \<open>The \<open>WHERE\<close> clause of the lookup (lines 321-322).\<close>

definition session_where :: "visitor_ip_log \<Rightarrow> visitor_session \<Rightarrow> bool" where
  "session_where new v =
     (sql_eq (vs_tracking_link_id v) (log_tracking_link_id new) \<and>
      sql_eq (Some (vs_session_id v)) (log_session_id new))"

text \<open>
  \<open>array_append(CASE WHEN v = ANY(a) THEN a ELSE array_append(a, v) END, NULL)\<close>: the
  value is appended unless the comparison is true, and then a NULL element is appended in
  every case.
\<close>

definition append_unless_present :: "string option \<Rightarrow> string option list \<Rightarrow> string option list" where
  "append_unless_present v array = (if sql_any v array then array else array @ [v]) @ [None]"

text \<open>The \<open>SET\<close> list of the \<open>UPDATE\<close> (lines 327-352).\<close>

definition update_session_row :: "visitor_ip_log \<Rightarrow> visitor_session \<Rightarrow> visitor_session" where
  "update_session_row new v =
     v\<lparr>vs_last_visit := log_created_at new,
       vs_total_visits := sql_plus (vs_total_visits v) (Some 1),
       vs_total_page_views := sql_plus (vs_total_page_views v) (log_page_views new),
       vs_unique_ips := append_unless_present (Some (log_ip_address new)) (vs_unique_ips v),
       vs_countries := append_unless_present (log_country new) (vs_countries v),
       vs_user_agents := append_unless_present (log_user_agent new) (vs_user_agents v),
       vs_is_suspicious := sql_or (vs_is_suspicious v) (log_is_suspicious new)\<rparr>"

text \<open>
  The trigger function on the rows of \<open>visitor_sessions\<close>. \<open>SELECT ... INTO\<close> takes the
  first row found; the \<open>UPDATE\<close> changes the rows with its \<open>id\<close>; the \<open>INSERT\<close> fails on
  the \<open>NOT NULL\<close> constraint of \<open>session_id\<close> when the new row has none.
\<close>

definition update_visitor_session ::
  "visitor_session list \<Rightarrow> visitor_ip_log \<Rightarrow> sql_error + visitor_session list" where
  "update_visitor_session visitor_sessions new =
     (case find (session_where new) visitor_sessions of
        Some session_record \<Rightarrow>
          Inr (map (\<lambda>v. if vs_id v = vs_id session_record then update_session_row new v else v)
                 visitor_sessions)
      | None \<Rightarrow>
          (case log_session_id new of
             None \<Rightarrow> Inl Not_null_violation
           | Some session \<Rightarrow>
               Inr (visitor_sessions @
                 [\<lparr>vs_id = gen_random_uuid (map vs_id visitor_sessions),
                   vs_tracking_link_id = log_tracking_link_id new,
                   vs_session_id = session,
                   vs_ip_address = log_ip_address new,
                   vs_first_visit = log_created_at new,
                   vs_last_visit = log_created_at new,
                   vs_total_visits = Some 1,
                   vs_total_page_views = log_page_views new,
                   vs_unique_ips = [Some (log_ip_address new)],
                   vs_countries = [log_country new],
                   vs_user_agents = [log_user_agent new],
                   vs_is_suspicious = log_is_suspicious new\<rparr>])))"

subsection \<open>Inserting into \<open>visitor_ip_logs\<close>\<close>

record database =
  visitor_ip_logs :: "visitor_ip_log list"
  visitor_sessions :: "visitor_session list"
  ip_anomaly_detection :: "ip_anomaly list"

definition empty_database :: database where
  "empty_database = \<lparr>visitor_ip_logs = [], visitor_sessions = [], ip_anomaly_detection = []\<rparr>"

text \<open>
  One \<open>INSERT\<close> of one row: the \<open>BEFORE INSERT\<close> trigger (lines 307-310), the insertion
  with its primary key, the \<open>AFTER INSERT\<close> trigger (lines 372-375). An error aborts the
  statement and nothing is changed.

  Neither trigger function is \<open>SECURITY DEFINER\<close>, so both read the tables as the inserting
  role does. \<open>sees\<close> gives, of the rows of \<open>visitor_ip_logs\<close>, those that role may select:
  all of them for a role that bypasses row-level security, none for \<open>anon\<close>, which has an
  \<open>INSERT\<close> policy on the table only. \<open>visitor_sessions\<close> is read in full (the \<open>anon\<close>
  policy of lines 155-160).
\<close>

definition insert_visitor_ip_log ::
  "double_precision \<Rightarrow> (visitor_ip_log list \<Rightarrow> visitor_ip_log list) \<Rightarrow> database \<Rightarrow>
   visitor_ip_log \<Rightarrow> sql_error + database" where
  "insert_visitor_ip_log dp sees db row =
     and_then (detect_ip_anomalies dp sees (visitor_ip_logs db) row) (\<lambda>result.
       case result of (inserted, new) \<Rightarrow>
         if log_id new \<in> set (map log_id (visitor_ip_logs db)) then Inl Unique_violation
         else
           and_then (update_visitor_session (visitor_sessions db) new) (\<lambda>sessions.
             Inr \<lparr>visitor_ip_logs = visitor_ip_logs db @ [new],
                  visitor_sessions = sessions,
                  ip_anomaly_detection = ip_anomaly_detection db @ inserted\<rparr>))"

text \<open>What a role that bypasses row-level security sees, and what \<open>anon\<close> sees.\<close>

definition sees_all :: "visitor_ip_log list \<Rightarrow> visitor_ip_log list" where
  "sees_all rows = rows"

definition sees_none :: "visitor_ip_log list \<Rightarrow> visitor_ip_log list" where
  "sees_none rows = []"

text \<open>A sequence of inserts; a failed one leaves the database as it was.\<close>

fun insert_all ::
  "double_precision \<Rightarrow> (visitor_ip_log list \<Rightarrow> visitor_ip_log list) \<Rightarrow> database \<Rightarrow>
   visitor_ip_log list \<Rightarrow> database" where
  "insert_all dp sees db [] = db"
| "insert_all dp sees db (row # rows) =
     insert_all dp sees
       (case insert_visitor_ip_log dp sees db row of Inl error \<Rightarrow> db | Inr db' \<Rightarrow> db') rows"

text \<open>
  The rows of a session, for a tracking link \<open>link\<close> and a session identifier \<open>session\<close>:
  its log rows and its rows of \<open>visitor_sessions\<close>.
\<close>

definition log_in_session :: "uuid \<Rightarrow> string \<Rightarrow> visitor_ip_log \<Rightarrow> bool" where
  "log_in_session link session r =
     (log_tracking_link_id r = Some link \<and> log_session_id r = Some session)"

definition session_for :: "uuid \<Rightarrow> string \<Rightarrow> visitor_session \<Rightarrow> bool" where
  "session_for link session v =
     (vs_tracking_link_id v = Some link \<and> vs_session_id v = session)"

text \<open>
  What the session rows \<open>S\<close> of a pair must be for its log rows \<open>L\<close>: none when there is
  no log row, else one row that counts the log rows and lists each of their addresses
  once.
\<close>

definition summarises :: "visitor_ip_log list \<Rightarrow> visitor_session list \<Rightarrow> bool" where
  "summarises L S =
     (if L = [] then S = []
      else \<exists>v. S = [v] \<and> vs_total_visits v = Some (int (length L)) \<and>
             (\<forall>a. count_list (vs_unique_ips v) (Some a) =
                    (if a \<in> set (map log_ip_address L) then 1 else 0)))"

definition sessions_aggregate :: "database \<Rightarrow> bool" where
  "sessions_aggregate db =
     (distinct (map vs_id (visitor_sessions db)) \<and>
      (\<forall>r \<in> set (visitor_ip_logs db). log_session_id r \<noteq> None) \<and>
      (\<forall>link session.
         summarises (filter (log_in_session link session) (visitor_ip_logs db))
           (filter (session_for link session) (visitor_sessions db))))"

text \<open>
  Two visits of one session, one minute apart and a quarter of the equator away from each
  other: with a tracking link, and without one (\<open>tracking_link_id\<close> NULL).
\<close>

definition visit_at ::
  "uuid \<Rightarrow> uuid option \<Rightarrow> real \<Rightarrow> timestamptz \<Rightarrow> visitor_ip_log" where
  "visit_at i link lon t =
     \<lparr>log_id = i, log_tracking_link_id = link, log_ip_address = ''203.0.113.7'',
      log_user_agent = None, log_country = None, log_city = None,
      log_latitude = Some 0, log_longitude = Some lon,
      log_is_hosting = Some False, log_is_tor = Some False, log_is_vpn = Some False,
      log_session_id = Some ''s'', log_page_views = Some 1, log_is_suspicious = Some False,
      log_anomaly_score = Some 0, log_created_at = Some t\<rparr>"

section \<open>Row-level security policies of the migrations\<close>

text \<open>
  The two roles the policies name, and a caller: the \<open>anon\<close> role, for which
  \<open>auth.uid()\<close> is NULL, or an authenticated user with its id.
\<close>

datatype role = Role_anon | Role_authenticated

datatype caller = Anon | Authenticated uuid

fun role_of :: "caller \<Rightarrow> role" where
  "role_of Anon = Role_anon"
| "role_of (Authenticated u) = Role_authenticated"

fun auth_uid :: "caller \<Rightarrow> uuid option" where
  "auth_uid Anon = None"
| "auth_uid (Authenticated u) = Some u"

text \<open>
  The tables of migrations \<open>20250619163936\<close> and \<open>20250619175042\<close>; all have
  row-level security enabled (lines 149-153 and 111-114).
\<close>

datatype table =
    Ip_analysis_sessions | Ip_analysis_results | Performance_diagnostics | Program_analysis
  | Diagnostic_sessions
  | Ip_tracking_links | Visitor_ip_logs | Visitor_sessions | Ip_anomaly_detection

datatype command = Select | Insert | Update | Delete

text \<open>
  The conditions that occur in \<open>USING\<close> and \<open>WITH CHECK\<close>:
  \<open>true\<close>; \<open>auth.uid() = user_id\<close>;
  \<open>tracking_link_id IN (SELECT id FROM ip_tracking_links WHERE user_id = auth.uid())\<close>;
  \<open>session_id IN (SELECT id FROM ip_analysis_sessions WHERE user_id = auth.uid())\<close>.
\<close>

datatype condition = Always | Uid_is_user_id | Link_of_caller | Analysis_session_of_caller

text \<open>
  A policy: where it is created, its table, its command (\<open>None\<close> for \<open>FOR ALL\<close>), its
  role, and its two clauses where present.
\<close>

record policy =
  policy_source :: string
  policy_table :: table
  policy_for :: "command option"
  policy_to :: role
  policy_using :: "condition option"
  policy_with_check :: "condition option"

text \<open>Migration \<open>20250619163936\<close>, lines 156-197.\<close>

definition policies_20250619163936 :: "policy list" where
  "policies_20250619163936 =
     [\<lparr>policy_source = ''20250619163936:156'', policy_table = Ip_analysis_sessions,
       policy_for = None, policy_to = Role_authenticated,
       policy_using = Some Uid_is_user_id, policy_with_check = Some Uid_is_user_id\<rparr>,
      \<lparr>policy_source = ''20250619163936:164'', policy_table = Ip_analysis_results,
       policy_for = None, policy_to = Role_authenticated,
       policy_using = Some Analysis_session_of_caller, policy_with_check = None\<rparr>,
      \<lparr>policy_source = ''20250619163936:176'', policy_table = Performance_diagnostics,
       policy_for = None, policy_to = Role_authenticated,
       policy_using = Some Uid_is_user_id, policy_with_check = Some Uid_is_user_id\<rparr>,
      \<lparr>policy_source = ''20250619163936:184'', policy_table = Program_analysis,
       policy_for = None, policy_to = Role_authenticated,
       policy_using = Some Uid_is_user_id, policy_with_check = Some Uid_is_user_id\<rparr>,
      \<lparr>policy_source = ''20250619163936:192'', policy_table = Diagnostic_sessions,
       policy_for = None, policy_to = Role_authenticated,
       policy_using = Some Uid_is_user_id, policy_with_check = Some Uid_is_user_id\<rparr>]"

text \<open>Migration \<open>20250619175042\<close>, lines 117-178.\<close>

definition policies_20250619175042 :: "policy list" where
  "policies_20250619175042 =
     [\<lparr>policy_source = ''20250619175042:117'', policy_table = Ip_tracking_links,
       policy_for = None, policy_to = Role_authenticated,
       policy_using = Some Uid_is_user_id, policy_with_check = Some Uid_is_user_id\<rparr>,
      \<lparr>policy_source = ''20250619175042:125'', policy_table = Visitor_ip_logs,
       policy_for = Some Select, policy_to = Role_authenticated,
       policy_using = Some Link_of_caller, policy_with_check = None\<rparr>,
      \<lparr>policy_source = ''20250619175042:137'', policy_table = Visitor_ip_logs,
       policy_for = Some Insert, policy_to = Role_anon,
       policy_using = None, policy_with_check = Some Always\<rparr>,
      \<lparr>policy_source = ''20250619175042:144'', policy_table = Visitor_sessions,
       policy_for = Some Select, policy_to = Role_authenticated,
       policy_using = Some Link_of_caller, policy_with_check = None\<rparr>,
      \<lparr>policy_source = ''20250619175042:155'', policy_table = Visitor_sessions,
       policy_for = None, policy_to = Role_anon,
       policy_using = Some Always, policy_with_check = Some Always\<rparr>,
      \<lparr>policy_source = ''20250619175042:163'', policy_table = Ip_anomaly_detection,
       policy_for = Some Select, policy_to = Role_authenticated,
       policy_using = Some Link_of_caller, policy_with_check = None\<rparr>,
      \<lparr>policy_source = ''20250619175042:174'', policy_table = Ip_anomaly_detection,
       policy_for = Some Insert, policy_to = Role_anon,
       policy_using = None, policy_with_check = Some Always\<rparr>]"

text \<open>
  The later migration for global data sharing (the SQL after \<open>ProgramAnalyzer.tsx\<close>). It
  drops the five policies of \<open>20250619163936\<close> (three of them already replaced by the
  team policies it also drops) and creates these.
\<close>

definition policies_global_sharing :: "policy list" where
  "policies_global_sharing =
     [\<lparr>policy_source = ''global-sharing:829'', policy_table = Ip_analysis_sessions,
       policy_for = None, policy_to = Role_authenticated,
       policy_using = Some Always, policy_with_check = Some Uid_is_user_id\<rparr>,
      \<lparr>policy_source = ''global-sharing:837'', policy_table = Performance_diagnostics,
       policy_for = None, policy_to = Role_authenticated,
       policy_using = Some Always, policy_with_check = Some Uid_is_user_id\<rparr>,
      \<lparr>policy_source = ''global-sharing:845'', policy_table = Program_analysis,
       policy_for = None, policy_to = Role_authenticated,
       policy_using = Some Always, policy_with_check = Some Uid_is_user_id\<rparr>,
      \<lparr>policy_source = ''global-sharing:854'', policy_table = Ip_analysis_results,
       policy_for = None, policy_to = Role_authenticated,
       policy_using = Some Always, policy_with_check = None\<rparr>,
      \<lparr>policy_source = ''global-sharing:862'', policy_table = Diagnostic_sessions,
       policy_for = None, policy_to = Role_authenticated,
       policy_using = Some Always, policy_with_check = Some Uid_is_user_id\<rparr>]"

text \<open>The policies after the two dated migrations, and after all migrations.\<close>

definition dated_policies :: "policy list" where
  "dated_policies = policies_20250619163936 @ policies_20250619175042"

definition current_policies :: "policy list" where
  "current_policies = policies_global_sharing @ policies_20250619175042"

text \<open>
  The columns a condition reads, for a row of any of the tables (a column the table
  lacks is NULL), and the two tables the sub-selects read, as (\<open>id\<close>, \<open>user_id\<close>) pairs.
\<close>

record table_row =
  row_user_id :: "uuid option"
  row_tracking_link_id :: "uuid option"
  row_session_id :: "uuid option"

record owners =
  ip_tracking_links :: "(uuid \<times> uuid option) list"
  ip_analysis_sessions :: "(uuid \<times> uuid option) list"

text \<open>\<open>x IN (SELECT id FROM t WHERE user_id = auth.uid())\<close> is true.\<close>

definition in_own :: "uuid option \<Rightarrow> (uuid \<times> uuid option) list \<Rightarrow> caller \<Rightarrow> bool" where
  "in_own x t c =
     list_ex (\<lambda>(i, user_id). sql_eq user_id (auth_uid c) \<and> sql_eq x (Some i)) t"

fun holds :: "owners \<Rightarrow> caller \<Rightarrow> table_row \<Rightarrow> condition \<Rightarrow> bool" where
  "holds db c row Always = True"
| "holds db c row Uid_is_user_id = sql_eq (auth_uid c) (row_user_id row)"
| "holds db c row Link_of_caller = in_own (row_tracking_link_id row) (ip_tracking_links db) c"
| "holds db c row Analysis_session_of_caller =
     in_own (row_session_id row) (ip_analysis_sessions db) c"

text \<open>
  Row-level security as PostgreSQL applies it. A policy applies to a command of a role
  on its table when it is for that command or for all. With no applicable policy nothing
  is allowed; else an existing row can be selected, updated or deleted when the \<open>USING\<close>
  clause of some applicable policy is true for it, and a row can be inserted, or be the
  result of an update, when the \<open>WITH CHECK\<close> clause of some applicable policy is true for
  it (its \<open>USING\<close> clause when it has no \<open>WITH CHECK\<close>).
\<close>

definition applies :: "policy \<Rightarrow> caller \<Rightarrow> command \<Rightarrow> table \<Rightarrow> bool" where
  "applies p c cmd t =
     (policy_table p = t \<and> policy_to p = role_of c \<and>
      (policy_for p = None \<or> policy_for p = Some cmd))"

definition permitted :: "policy list \<Rightarrow> caller \<Rightarrow> command \<Rightarrow> table \<Rightarrow> bool" where
  "permitted ps c cmd t = list_ex (\<lambda>p. applies p c cmd t) ps"

definition using_ok ::
  "policy list \<Rightarrow> owners \<Rightarrow> caller \<Rightarrow> command \<Rightarrow> table \<Rightarrow> table_row \<Rightarrow> bool" where
  "using_ok ps db c cmd t row =
     list_ex (\<lambda>p. applies p c cmd t \<and>
                  (case policy_using p of None \<Rightarrow> False | Some e \<Rightarrow> holds db c row e)) ps"

definition check_ok ::
  "policy list \<Rightarrow> owners \<Rightarrow> caller \<Rightarrow> command \<Rightarrow> table \<Rightarrow> table_row \<Rightarrow> bool" where
  "check_ok ps db c cmd t row =
     list_ex (\<lambda>p. applies p c cmd t \<and>
                  (case policy_with_check p of
                     Some e \<Rightarrow> holds db c row e
                   | None \<Rightarrow> (case policy_using p of None \<Rightarrow> False | Some e \<Rightarrow> holds db c row e)))
       ps"

text \<open>
  Whether a caller can read or write a row with a command: an existing row for \<open>SELECT\<close>
  and \<open>DELETE\<close>, the new row for \<open>INSERT\<close>, and for \<open>UPDATE\<close> a row that is both (an update
  that leaves the columns of the conditions as they are).
\<close>

fun can_access ::
  "policy list \<Rightarrow> owners \<Rightarrow> caller \<Rightarrow> command \<Rightarrow> table \<Rightarrow> table_row \<Rightarrow> bool" where
  "can_access ps db c Select t row = using_ok ps db c Select t row"
| "can_access ps db c Delete t row = using_ok ps db c Delete t row"
| "can_access ps db c Insert t row = check_ok ps db c Insert t row"
| "can_access ps db c Update t row =
     (using_ok ps db c Update t row \<and> check_ok ps db c Update t row)"

text \<open>
  Ownership as the specification words it: a row is owned by a user directly, through
  its \<open>user_id\<close>, or through the tracking link it belongs to (for a result of an
  analysis, through its analysis session). The \<open>anon\<close> role owns nothing.
\<close>

definition belongs_to :: "(uuid \<times> uuid option) list \<Rightarrow> uuid option \<Rightarrow> uuid \<Rightarrow> bool" where
  "belongs_to t x u = (case x of None \<Rightarrow> False | Some i \<Rightarrow> (i, Some u) \<in> set t)"

fun owned_by :: "owners \<Rightarrow> uuid \<Rightarrow> table \<Rightarrow> table_row \<Rightarrow> bool" where
  "owned_by db u Visitor_ip_logs row =
     belongs_to (ip_tracking_links db) (row_tracking_link_id row) u"
| "owned_by db u Visitor_sessions row =
     belongs_to (ip_tracking_links db) (row_tracking_link_id row) u"
| "owned_by db u Ip_anomaly_detection row =
     belongs_to (ip_tracking_links db) (row_tracking_link_id row) u"
| "owned_by db u Ip_analysis_results row =
     belongs_to (ip_analysis_sessions db) (row_session_id row) u"
| "owned_by db u t row = (row_user_id row = Some u)"

fun owned :: "owners \<Rightarrow> caller \<Rightarrow> table \<Rightarrow> table_row \<Rightarrow> bool" where
  "owned db Anon t row = False"
| "owned db (Authenticated u) t row = owned_by db u t row"

section \<open>Properties of the threat-level heuristic\<close>

lemma known_bad_in_suspicious_range:
  "isKnownMaliciousIP addr \<Longrightarrow> isSuspiciousRange addr"
  by (auto simp: isKnownMaliciousIP_def isSuspiciousRange_def knownBadIPs_def
      suspiciousRanges_def)

text \<open>
  Claim C4. For every string \<open>ip\<close>, \<open>assessThreatLevel\<close> buckets the weighted sum
  5 [known malicious] + 3 [suspicious prefix] + 2 [datacenter]: it returns \<open>high\<close>
  exactly when the sum is at least 5, \<open>medium\<close> exactly when the sum is at least 2 and
  below 5, and \<open>low\<close> exactly when the sum is below 2.
\<close>

theorem assessThreatLevel_buckets:
  "(assessThreatLevel addr = High \<longleftrightarrow> weighted_score addr \<ge> 5) \<and>
   (assessThreatLevel addr = Medium \<longleftrightarrow> 2 \<le> weighted_score addr \<and> weighted_score addr < 5) \<and>
   (assessThreatLevel addr = Low \<longleftrightarrow> weighted_score addr < 2)"
  by (simp add: assessThreatLevel_def weighted_score_def Let_def)

theorem assessThreatLevel_buckets_witness:
  "assessThreatLevel ''95.223.57.198'' = High \<and> weighted_score ''95.223.57.198'' = 10 \<and>
   assessThreatLevel ''8.8.8.8'' = Low \<and> weighted_score ''8.8.8.8'' = 0"
  using assessThreatLevel_buckets [of "''95.223.57.198''"]
    assessThreatLevel_buckets [of "''8.8.8.8''"]
  by (simp add: weighted_score_def isKnownMaliciousIP_def isSuspiciousRange_def
      isDatacenterIP_def knownBadIPs_def suspiciousRanges_def)

text \<open>
  Claim C9. \<open>assessThreatLevel\<close> never returns \<open>medium\<close>: the datacenter check is the
  suspicious-prefix check, and every known-malicious address starts with a suspicious
  prefix, so the weighted sum is 0, 5 or 10 and the result is \<open>low\<close> or \<open>high\<close>.
\<close>

theorem assessThreatLevel_never_medium:
  "(assessThreatLevel addr = Low \<or> assessThreatLevel addr = High) \<and>
   assessThreatLevel addr \<noteq> Medium \<and>
   weighted_score addr \<in> {0, 5, 10}"
  using known_bad_in_suspicious_range [of addr]
  by (auto simp: assessThreatLevel_def weighted_score_def isDatacenterIP_def Let_def)

theorem assessThreatLevel_never_medium_witness:
  "assessThreatLevel ''95.223.70.174'' = High \<and> weighted_score ''95.223.70.174'' = 5"
  using assessThreatLevel_never_medium [of "''95.223.70.174''"]
  by (simp add: assessThreatLevel_def weighted_score_def isKnownMaliciousIP_def
      isSuspiciousRange_def isDatacenterIP_def knownBadIPs_def suspiciousRanges_def)

section \<open>Properties of the geolocation proxy\<close>

text \<open>
  Claim C2. A POST request whose body parses to an array of more than 50 elements is
  answered with status 400 and the body \<open>{"error": "Too many IPs. Maximum 50 allowed."}\<close>
  without any upstream request. An array of at most 50 elements is forwarded upstream:
  exactly one request is issued, the POST to the batch URL of the geolocation service
  with content type \<open>application/json\<close>, whose body is the array of the serialised
  elements, in order.
\<close>

theorem handler_caps_batch_at_50:
  assumes "httpMethod ev = ''POST''"
    and "JSON_parse (event.body ev) = Inr (JArray xs)"
  shows "(length xs > 50 \<longrightarrow>
            statusCode (fst (handler JSON_parse fetch ev)) = 400 \<and>
            response.body (fst (handler JSON_parse fetch ev)) =
              JSON_text (TObject [(''error'', TString ''Too many IPs. Maximum 50 allowed.'')]) \<and>
            snd (handler JSON_parse fetch ev) = []) \<and>
         (length xs \<le> 50 \<longrightarrow>
            upstream_requests (snd (handler JSON_parse fetch ev)) =
              [\<lparr>url = ''http://ip-api.com/batch?fields=status,message,continent,continentCode,country,countryCode,region,regionName,city,district,zip,lat,lon,timezone,offset,currency,isp,org,as,asname,reverse,mobile,proxy,hosting,query'',
                request_method = ''POST'',
                headers = [(''Content-Type'', ''application/json'')],
                body = JSON_text (TArray (map JSON_stringify xs))\<rparr>])"
  using assms
  by (auto simp: handler_def handler_try_def error_response_def upstream_request_def
      batch_url_def split: sum.splits)

theorem handler_caps_batch_at_50_witness:
  "statusCode (fst (handler (\<lambda>s. Inr (JArray (replicate 51 JNull))) (\<lambda>r. Inl NetworkError)
       \<lparr>httpMethod = ''POST'', body = ''[..]''\<rparr>)) = 400 \<and>
   snd (handler (\<lambda>s. Inr (JArray (replicate 51 JNull))) (\<lambda>r. Inl NetworkError)
       \<lparr>httpMethod = ''POST'', body = ''[..]''\<rparr>) = [] \<and>
   upstream_requests (snd (handler (JSON_parse_by sample_read overflow_to_infinity)
       (\<lambda>r. Inl NetworkError) \<lparr>httpMethod = ''POST'', body = ''[1, 2]''\<rparr>)) =
     [\<lparr>url = ''http://ip-api.com/batch?fields=status,message,continent,continentCode,country,countryCode,region,regionName,city,district,zip,lat,lon,timezone,offset,currency,isp,org,as,asname,reverse,mobile,proxy,hosting,query'',
       request_method = ''POST'',
       headers = [(''Content-Type'', ''application/json'')],
       body = JSON_text (TArray [TNumber 1, TNumber 2])\<rparr>]"
proof -
  have p: "JSON_parse_by sample_read overflow_to_infinity
             (event.body \<lparr>httpMethod = ''POST'', body = ''[1, 2]''\<rparr>) =
           Inr (JArray [JNumber (Finite 1), JNumber (Finite 2)])"
    by (simp add: JSON_parse_by_def sample_read_def overflow_to_infinity_def)
  show ?thesis
    using handler_caps_batch_at_50 [of "\<lparr>httpMethod = ''POST'', body = ''[..]''\<rparr>"
        "\<lambda>s. Inr (JArray (replicate 51 JNull))" "replicate 51 JNull" "\<lambda>r. Inl NetworkError"]
      handler_caps_batch_at_50 [of "\<lparr>httpMethod = ''POST'', body = ''[1, 2]''\<rparr>"
        "JSON_parse_by sample_read overflow_to_infinity"
        "[JNumber (Finite 1), JNumber (Finite 2)]" "\<lambda>r. Inl NetworkError"] p
    by simp
qed



lemma stringify_to_value_array:
  "JSON_stringify (to_value r (TArray ts)) = TArray (map (\<lambda>u. JSON_stringify (to_value r u)) ts)"
  by simp


text \<open>
  Claim C6. The request body is parsed only for POST requests. When that parse throws, or
  when the upstream request is issued and fails (\<open>fetch\<close> rejects, or the response is not
  OK), the handler answers with status 500 and the fixed body
  \<open>{"error": "Internal server error", "message": "Failed to analyze IP addresses"}\<close>.
  No run of the handler, whatever the request, issues more than one upstream request.
\<close>

theorem handler_failure_is_generic_500:
  "(httpMethod ev = ''POST'' \<longrightarrow>
      (\<forall>e. JSON_parse (event.body ev) = Inl e \<longrightarrow>
         fst (handler JSON_parse fetch ev) = internal_error \<and>
         upstream_requests (snd (handler JSON_parse fetch ev)) = []) \<and>
      (\<forall>xs. JSON_parse (event.body ev) = Inr (JArray xs) \<and> length xs \<le> 50 \<and>
         (case fetch (upstream_request (JArray xs)) of
            Inl e \<Rightarrow> True | Inr resp \<Rightarrow> \<not> ok resp) \<longrightarrow>
         fst (handler JSON_parse fetch ev) = internal_error \<and>
         upstream_requests (snd (handler JSON_parse fetch ev)) =
           [upstream_request (JArray xs)])) \<and>
   length (upstream_requests (snd (handler JSON_parse fetch ev))) \<le> 1 \<and>
   statusCode internal_error = 500 \<and>
   response.body internal_error =
     JSON_text (TObject [(''error'', TString ''Internal server error''),
                         (''message'', TString ''Failed to analyze IP addresses'')])"
  by (auto simp: handler_def handler_try_def internal_error_def error_response_def
      split: sum.splits prod.splits)

theorem handler_failure_is_generic_500_witness:
  "handler (\<lambda>s. Inl SyntaxError) (\<lambda>r. Inl NetworkError)
     \<lparr>httpMethod = ''POST'', body = ''{''\<rparr> = (internal_error, [ConsoleError SyntaxError]) \<and>
   handler (\<lambda>s. Inr (JArray []))
     (\<lambda>r. Inr \<lparr>ok = False, status = 429, response_text = Inl BodyError\<rparr>)
     \<lparr>httpMethod = ''POST'', body = ''[]''\<rparr> =
     (internal_error, [Fetch (upstream_request (JArray [])), ConsoleError (HttpError 429)])"
  using handler_failure_is_generic_500
    [of "\<lparr>httpMethod = ''POST'', body = ''{''\<rparr>" "\<lambda>s. Inl SyntaxError" "\<lambda>r. Inl NetworkError"]
    handler_failure_is_generic_500
    [of "\<lparr>httpMethod = ''POST'', body = ''[]''\<rparr>" "\<lambda>s. Inr (JArray [])"
      "\<lambda>r. Inr \<lparr>ok = False, status = 429, response_text = Inl BodyError\<rparr>"]
  by (simp add: handler_def handler_try_def)




section \<open>Properties of the batch analysis\<close>

text \<open>
  Counting countries in the object \<open>byCountry\<close>: an ordinary name is counted, a name that
  is an array index moves to the front, and a name that \<open>{}\<close> inherits is not counted.
\<close>

lemma increment_property_examples:
  "fold increment_property [''China'', ''Japan'', ''China''] [] =
     [(''China'', Count 2), (''Japan'', Count 1)]"
  "fold increment_property [''China'', ''7''] [] = [(''7'', Count 1), (''China'', Count 1)]"
  "fold increment_property [''constructor'', ''__proto__'', ''constructor''] [] =
     [(''constructor'', Member_text ''constructor'' 2)]"
  by (simp_all add: increment_property_def set_property_def array_index_def is_digit_def
      digits_value_def object_prototype_members_def)

lemma analyzeBatch_loop_eq:
  "analyzeBatch_loop f ips rs logged =
     (rs @ map (\<lambda>a. projr (f a)) (filter (\<lambda>a. \<not> isl (f a)) ips),
      logged @ map (\<lambda>a. (a, projl (f a))) (filter (\<lambda>a. isl (f a)) ips))"
  by (induction ips arbitrary: rs logged) (auto split: sum.splits)

text \<open>
  Claim C7. For every list of IP strings and every per-IP analysis, \<open>analyzeBatch\<close>
  resolves (it never rejects): the addresses whose analysis throws are skipped and only
  logged, and \<open>results\<close> holds exactly the results of the addresses whose analysis
  succeeded, one each, in input order.
\<close>

theorem analyzeBatch_skips_failures:
  "\<exists>b. fst (analyzeBatch analyzeIP ips) = Inr b \<and>
       results b = map (\<lambda>a. projr (analyzeIP a)) (filter (\<lambda>a. \<not> isl (analyzeIP a)) ips) \<and>
       length (results b) = length (filter (\<lambda>a. \<not> isl (analyzeIP a)) ips) \<and>
       snd (analyzeBatch analyzeIP ips) =
         map (\<lambda>a. (a, projl (analyzeIP a))) (filter (\<lambda>a. isl (analyzeIP a)) ips)"
  by (simp add: analyzeBatch_def analyzeBatch_loop_eq)

theorem analyzeBatch_skips_failures_witness:
  "\<exists>b. fst (analyzeBatch
              (\<lambda>a. if a = ''bad'' then Inl SyntaxError
                    else Inr \<lparr>ip = a, location_country = ''Netherlands'',
                              network_isp = ''LeaseWeb Netherlands B.V.'',
                              network_ipType = Datacenter,
                              security_threatLevel = assessThreatLevel a,
                              blacklistStatus_isBlacklisted = False,
                              vpnTorStatus_isVPN = False, vpnTorStatus_isTor = False\<rparr>)
              [''8.8.8.8'', ''bad'', ''1.1.1.1'']) = Inr b \<and>
       map ip (results b) = [''8.8.8.8'', ''1.1.1.1'']"
  using analyzeBatch_skips_failures
    [of "\<lambda>a. if a = ''bad'' then Inl SyntaxError
              else Inr \<lparr>ip = a, location_country = ''Netherlands'',
                        network_isp = ''LeaseWeb Netherlands B.V.'',
                        network_ipType = Datacenter,
                        security_threatLevel = assessThreatLevel a,
                        blacklistStatus_isBlacklisted = False,
                        vpnTorStatus_isVPN = False, vpnTorStatus_isTor = False\<rparr>"
      "[''8.8.8.8'', ''bad'', ''1.1.1.1'']"]
  by auto

section \<open>Properties of the unread-alert query\<close>

lemma set_order_created_at_desc: "set (order_created_at_desc rows) = set rows"
  by (auto simp: order_created_at_desc_def)

text \<open>
  Claim C10. Whatever the table and the query time, every alert \<open>getUnreadAlerts\<close>
  returns has \<open>is_read\<close> false and an \<open>expires_at\<close> strictly earlier than the query time;
  an alert whose \<open>expires_at\<close> is the query time or later is never returned. When the
  request succeeds, the alerts returned are exactly the unread, already expired rows.
\<close>

theorem getUnreadAlerts_only_expired:
  "(\<forall>a \<in> set (getUnreadAlerts table now).
      alert_is_read a = Some False \<and> (\<exists>t. alert_expires_at a = Some t \<and> t < now)) \<and>
   (\<forall>a t. alert_expires_at a = Some t \<and> now \<le> t \<longrightarrow> a \<notin> set (getUnreadAlerts table now)) \<and>
   (\<forall>rows. table = Inr rows \<longrightarrow>
      set (getUnreadAlerts table now) =
        {a \<in> set rows. alert_is_read a = Some False \<and>
                       (\<exists>t. alert_expires_at a = Some t \<and> t < now)})"
  by (auto simp: getUnreadAlerts_def set_order_created_at_desc eq_filter_def lt_filter_def
      split: sum.splits option.splits)

theorem getUnreadAlerts_only_expired_witness:
  "getUnreadAlerts
     (Inr [\<lparr>alert_id = 1, alert_user_id = Some 7, alert_alert_type = Suspicious_ip,
            alert_title = ''old'', alert_message = ''expired yesterday'',
            alert_severity = Some Warning, alert_is_read = Some False,
            alert_created_at = Some 10, alert_expires_at = Some 90\<rparr>,
           \<lparr>alert_id = 2, alert_user_id = Some 7, alert_alert_type = Suspicious_ip,
            alert_title = ''fresh'', alert_message = ''expires next week'',
            alert_severity = Some Warning, alert_is_read = Some False,
            alert_created_at = Some 95, alert_expires_at = Some 700\<rparr>] :: unit + _) 100 =
     [\<lparr>alert_id = 1, alert_user_id = Some 7, alert_alert_type = Suspicious_ip,
       alert_title = ''old'', alert_message = ''expired yesterday'',
       alert_severity = Some Warning, alert_is_read = Some False,
       alert_created_at = Some 10, alert_expires_at = Some 90\<rparr>]"
  using getUnreadAlerts_only_expired
    [of "Inr [\<lparr>alert_id = 1, alert_user_id = Some 7, alert_alert_type = Suspicious_ip,
            alert_title = ''old'', alert_message = ''expired yesterday'',
            alert_severity = Some Warning, alert_is_read = Some False,
            alert_created_at = Some 10, alert_expires_at = Some 90\<rparr>,
           \<lparr>alert_id = 2, alert_user_id = Some 7, alert_alert_type = Suspicious_ip,
            alert_title = ''fresh'', alert_message = ''expires next week'',
            alert_severity = Some Warning, alert_is_read = Some False,
            alert_created_at = Some 95, alert_expires_at = Some 700\<rparr>] :: unit + _" 100]
  by (simp add: getUnreadAlerts_def order_created_at_desc_def eq_filter_def lt_filter_def)

section \<open>Properties of the anomaly trigger\<close>

lemma comes_first_refl: "comes_first r r"
  by (simp add: comes_first_def split: option.splits)

lemma comes_first_total: "\<not> comes_first r b \<Longrightarrow> comes_first b r"
  by (auto simp: comes_first_def split: option.splits)

lemma comes_first_trans: "comes_first a b \<Longrightarrow> comes_first b c \<Longrightarrow> comes_first a c"
  by (auto simp: comes_first_def split: option.splits)

lemma limit_1_None: "order_by_created_at_desc_limit_1 rs = None \<longleftrightarrow> rs = []"
  by (induction rs) (auto split: option.splits)

lemma limit_1_Some:
  "order_by_created_at_desc_limit_1 rs = Some p \<Longrightarrow>
     p \<in> set rs \<and> (\<forall>r \<in> set rs. comes_first p r)"
proof (induction rs arbitrary: p)
  case Nil
  then show ?case by simp
next
  case (Cons x xs)
  show ?case
  proof (cases "order_by_created_at_desc_limit_1 xs")
    case None
    then have "xs = []" by (simp add: limit_1_None)
    with Cons.prems show ?thesis by (simp add: comes_first_refl)
  next
    case (Some b)
    from Cons.IH [OF Some] have b: "b \<in> set xs" "\<forall>r \<in> set xs. comes_first b r" by auto
    show ?thesis
    proof (cases "comes_first x b")
      case True
      with Some Cons.prems have "p = x" by simp
      with True b show ?thesis
        by (auto intro: comes_first_refl comes_first_trans)
    next
      case False
      with Some Cons.prems have "p = b" by simp
      with False b show ?thesis
        by (auto intro: comes_first_total)
    qed
  qed
qed

text \<open>
  The row the query selects is a row it sees that passes its \<open>WHERE\<close> clause, and no
  other such row must come before it in descending \<open>created_at\<close> order.
\<close>

lemma select_prev_visit_Some:
  "select_prev_visit seen new = Some p \<Longrightarrow>
     p \<in> set seen \<and> prev_visit_where new p \<and>
     (\<forall>r \<in> set seen. prev_visit_where new r \<longrightarrow> comes_first p r)"
  unfolding select_prev_visit_def by (drule limit_1_Some) auto

text \<open>
  In exact arithmetic the argument of the arc cosine is the cosine of the central angle:
  it lies in the domain of \<open>acos\<close> for all coordinates, and no error is raised.
\<close>

lemma law_of_cosines_in_range:
  fixes a b d :: real
  shows "\<bar>cos a * cos b * cos d + sin a * sin b\<bar> \<le> 1"
proof -
  define c where "c = cos d"
  define p where "p = cos (a - b)"
  define q where "q = cos (a + b)"
  have c: "- 1 \<le> c" "c \<le> 1" and p: "\<bar>p\<bar> \<le> 1" and q: "\<bar>q\<bar> \<le> 1"
    by (simp_all add: c_def p_def q_def)
  have eq: "cos a * cos b * cos d + sin a * sin b = (1 + c) / 2 * p - (1 - c) / 2 * q"
    by (simp add: c_def p_def q_def cos_diff cos_add field_simps)
  have l: "0 \<le> (1 + c) / 2" "0 \<le> (1 - c) / 2"
    using c by simp_all
  have "\<bar>(1 + c) / 2 * p - (1 - c) / 2 * q\<bar> \<le> \<bar>(1 + c) / 2 * p\<bar> + \<bar>(1 - c) / 2 * q\<bar>"
    by (rule abs_triangle_ineq4)
  also have "\<dots> = (1 + c) / 2 * \<bar>p\<bar> + (1 - c) / 2 * \<bar>q\<bar>"
    using l by (simp add: abs_mult)
  also have "\<dots> \<le> (1 + c) / 2 * 1 + (1 - c) / 2 * 1"
    using l p q by (intro add_mono mult_left_mono) simp_all
  also have "\<dots> = 1"
    by (simp add: field_simps)
  finally show ?thesis by (simp add: eq)
qed

lemma distance_km_exact:
  "distance_km exact plat plon nlat nlon =
     Inr (6371 * arccos
       (cos (plat * pi / 180) * cos (nlat * pi / 180) *
        cos (nlon * pi / 180 - plon * pi / 180) +
        sin (plat * pi / 180) * sin (nlat * pi / 180)))"
proof -
  from law_of_cosines_in_range
    [of "plat * pi / 180" "nlat * pi / 180" "nlon * pi / 180 - plon * pi / 180"]
  have "\<not> (cos (plat * pi / 180) * cos (nlat * pi / 180) *
            cos (nlon * pi / 180 - plon * pi / 180) +
            sin (plat * pi / 180) * sin (nlat * pi / 180) < - 1)"
    and "\<not> (1 < cos (plat * pi / 180) * cos (nlat * pi / 180) *
            cos (nlon * pi / 180 - plon * pi / 180) +
            sin (plat * pi / 180) * sin (nlat * pi / 180))"
    by (simp_all add: abs_le_iff not_less)
  then show ?thesis
    by (simp add: distance_km_def exact_def Let_def)
qed

lemma distance_quarter_equator: "distance_km exact 0 0 0 90 = Inr (6371 * (pi / 2))"
  by (simp add: distance_km_exact)

lemma quarter_equator_gt_500: "(500::real) < 6371 * (pi / 2)"
  using pi_ge_two by simp

lemma distance_same_place: "distance_km exact 0 0 0 0 = Inr 0"
  by (simp add: distance_km_exact)

text \<open>
  The foreign key of \<open>ip_anomaly_detection\<close>: while the new row is not in
  \<open>visitor_ip_logs\<close>, an \<open>INSERT\<close> of an anomaly for it is an error. So a run of the trigger
  function that ends without error has inserted nothing.
\<close>

lemma insert_anomaly_before_insert:
  "an_visitor_log_id a \<notin> set (map log_id tbl) \<Longrightarrow>
     insert_anomaly tbl a st = Inl Foreign_key_violation"
  by (simp add: insert_anomaly_def split: prod.splits)

lemma detect_ip_anomalies_records_nothing:
  assumes "log_id new \<notin> set (map log_id tbl)"
    and "detect_ip_anomalies dp sees tbl new = Inr (inserted, new')"
  shows "inserted = []"
proof -
  have tor: "check_tor tbl new st = Inr st' \<Longrightarrow> st' = st" for st st'
    using assms(1) by (auto simp: check_tor_def insert_anomaly_before_insert split: if_splits)
  have vpn: "check_vpn tbl new st = Inr st' \<Longrightarrow> st' = st" for st st'
    using assms(1) by (auto simp: check_vpn_def insert_anomaly_before_insert split: if_splits)
  have hosting: "check_hosting tbl new st = Inr st' \<Longrightarrow> st' = st" for st st'
    using assms(1) by (auto simp: check_hosting_def insert_anomaly_before_insert split: if_splits)
  have rapid: "check_rapid_location_change dp tbl seen new st = Inr st' \<Longrightarrow> st' = st"
    for seen st st'
    using assms(1)
    by (auto simp: check_rapid_location_change_def and_then_def Let_def
        insert_anomaly_before_insert split: option.splits if_splits sum.splits)
  from assms(2) obtain s1 s2 s3 s4 where
    "check_tor tbl new ([], 0) = Inr s1" "check_vpn tbl new s1 = Inr s2"
    "check_hosting tbl new s2 = Inr s3"
    "check_rapid_location_change dp tbl (sees tbl) new s3 = Inr s4"
    "fst s4 = inserted"
    by (auto simp: detect_ip_anomalies_def and_then_def split: sum.splits prod.splits)
  with tor vpn hosting rapid show ?thesis
    by (metis fst_conv)
qed

lemma insert_visitor_ip_log_records_nothing:
  assumes "insert_visitor_ip_log dp sees db row = Inr db'"
  shows "ip_anomaly_detection db' = ip_anomaly_detection db"
proof -
  from assms obtain inserted new where
    d: "detect_ip_anomalies dp sees (visitor_ip_logs db) row = Inr (inserted, new)"
    and fresh: "log_id new \<notin> set (map log_id (visitor_ip_logs db))"
    and db': "ip_anomaly_detection db' = ip_anomaly_detection db @ inserted"
    by (auto simp: insert_visitor_ip_log_def and_then_def split: sum.splits prod.splits if_splits)
  from d have "log_id new = log_id row"
    by (auto simp: detect_ip_anomalies_def and_then_def split: sum.splits prod.splits)
  with fresh d have "inserted = []"
    by (intro detect_ip_anomalies_records_nothing [of row _ dp sees inserted new]) simp_all
  with db' show ?thesis by simp
qed

lemma insert_all_records_nothing:
  "ip_anomaly_detection (insert_all dp sees db rows) = ip_anomaly_detection db"
proof (induction rows arbitrary: db)
  case Nil
  then show ?case by simp
next
  case (Cons row rows)
  show ?case
  proof (cases "insert_visitor_ip_log dp sees db row")
    case (Inl e)
    with Cons.IH [of db] show ?thesis by simp
  next
    case (Inr db')
    with Cons.IH [of db'] insert_visitor_ip_log_records_nothing [OF Inr]
    show ?thesis by simp
  qed
qed

text \<open>
  The query selects the most recent previous visit when there is one: a row it sees, other
  than the new one, with the link and the session of the new row and with coordinates,
  that is later than every other such row.
\<close>

lemma select_prev_visit_most_recent:
  assumes "prev \<in> set seen" and "log_id prev \<noteq> log_id new"
    and "log_tracking_link_id prev = Some link" "log_tracking_link_id new = Some link"
    and "log_session_id prev = Some session" "log_session_id new = Some session"
    and "log_latitude prev = Some plat" "log_longitude prev = Some plon"
    and "log_created_at prev = Some tp"
    and recent: "\<forall>r \<in> set seen.
        r = prev \<or> log_id r = log_id new \<or> log_tracking_link_id r \<noteq> Some link \<or>
        log_session_id r \<noteq> Some session \<or> log_latitude r = None \<or>
        log_longitude r = None \<or> (\<exists>t. log_created_at r = Some t \<and> t < tp)"
  shows "select_prev_visit seen new = Some prev"
proof -
  have w: "prev_visit_where new prev"
    using assms by (simp add: prev_visit_where_def sql_eq_def)
  with assms(1) have "filter (prev_visit_where new) seen \<noteq> []"
    by (auto simp: filter_empty_conv)
  then obtain p where p: "select_prev_visit seen new = Some p"
    by (cases "select_prev_visit seen new") (simp_all add: select_prev_visit_def limit_1_None)
  from select_prev_visit_Some [OF p] assms(1) w
  have "p \<in> set seen" "prev_visit_where new p" "comes_first p prev"
    by auto
  with recent assms(4,6,9) have "p = prev"
    by (auto simp: prev_visit_where_def sql_eq_def comes_first_def split: option.splits)
  with p show ?thesis by simp
qed

text \<open>The definitions that evaluate an insert of a concrete row.\<close>

lemmas insert_eval =
  insert_visitor_ip_log_def detect_ip_anomalies_def and_then_def insert_anomaly_def
  check_tor_def check_vpn_def
  check_hosting_def check_rapid_location_change_def select_prev_visit_def
  prev_visit_where_def comes_first_def sql_eq_def sql_less_def sql_minus_def sql_plus_def
  sql_or_def sql_any_def one_hour_def update_visitor_session_def session_where_def
  update_session_row_def append_unless_present_def gen_random_uuid_def empty_database_def
  visit_at_def sees_all_def sees_none_def distance_same_place distance_quarter_equator
  Let_def

text \<open>
  Claim C1. Whenever the condition of the claim holds for the row of an \<open>INSERT\<close> into
  \<open>visitor_ip_logs\<close> - among the rows the trigger sees there is a most recent previous
  visit \<open>prev\<close> with the tracking link and the session of the new row and with
  coordinates, the new row has coordinates, the rows are less than one hour apart and
  more than 500 km distant -, the trigger does not record the anomaly: its \<open>INSERT\<close> into
  \<open>ip_anomaly_detection\<close> refers to a row that \<open>visitor_ip_logs\<close> does not hold yet, the
  foreign key raises an error and the statement is aborted (with a unique violation
  instead when the table holds a row with the \<open>id\<close> of the new one). No sequence of
  inserts into \<open>visitor_ip_logs\<close> adds a row to \<open>ip_anomaly_detection\<close>.
\<close>

theorem rapid_location_change_aborts_insert:
  assumes "prev \<in> set (sees (visitor_ip_logs db))" and "log_id prev \<noteq> log_id new"
    and "log_tracking_link_id prev = Some link" "log_tracking_link_id new = Some link"
    and "log_session_id prev = Some session" "log_session_id new = Some session"
    and "log_latitude prev = Some plat" "log_longitude prev = Some plon"
    and "log_created_at prev = Some tp"
    and "\<forall>r \<in> set (sees (visitor_ip_logs db)).
        r = prev \<or> log_id r = log_id new \<or> log_tracking_link_id r \<noteq> Some link \<or>
        log_session_id r \<noteq> Some session \<or> log_latitude r = None \<or>
        log_longitude r = None \<or> (\<exists>t. log_created_at r = Some t \<and> t < tp)"
    and "log_latitude new = Some nlat" "log_longitude new = Some nlon"
    and "log_created_at new = Some tn" "tn - tp < one_hour"
    and "distance_km dp plat plon nlat nlon = Inr d" "500 < d"
  shows "(if log_id new \<in> set (map log_id (visitor_ip_logs db))
          then insert_visitor_ip_log dp sees db new = Inl Unique_violation
          else insert_visitor_ip_log dp sees db new = Inl Foreign_key_violation) \<and>
         insert_all dp sees db (new # rows) = insert_all dp sees db rows \<and>
         ip_anomaly_detection (insert_all dp sees db (new # rows)) = ip_anomaly_detection db"
proof -
  have prev: "select_prev_visit (sees (visitor_ip_logs db)) new = Some prev"
    using assms(1-10) by (rule select_prev_visit_most_recent)
  have rapid: "check_rapid_location_change dp tbl (sees (visitor_ip_logs db)) new st =
      insert_anomaly tbl
        \<lparr>an_visitor_log_id = log_id new, an_tracking_link_id = log_tracking_link_id new,
         an_anomaly_type = Rapid_location_change, an_severity = Severity_high,
         an_description = Rapid_change_of_location d (tn - tp),
         an_confidence_score = 0.90,
         an_evidence = Location_change d (real_of_int (tn - tp) / 60000000)
           (log_city prev, log_country prev) (log_city new, log_country new)\<rparr> st"
    for tbl st
    using prev assms(7-9) assms(11-16)
    by (simp add: check_rapid_location_change_def and_then_def Let_def sql_less_def
        sql_minus_def)
  have aborted: "if log_id new \<in> set (map log_id (visitor_ip_logs db))
      then insert_visitor_ip_log dp sees db new = Inl Unique_violation
      else insert_visitor_ip_log dp sees db new = Inl Foreign_key_violation"
  proof (cases "log_id new \<in> set (map log_id (visitor_ip_logs db))")
    case True
    then have "\<exists>inserted new'.
        detect_ip_anomalies dp sees (visitor_ip_logs db) new = Inr (inserted, new') \<and>
        log_id new' = log_id new"
      by (simp add: detect_ip_anomalies_def and_then_def check_tor_def check_vpn_def
          check_hosting_def insert_anomaly_def rapid split: prod.splits)
    with True show ?thesis
      by (auto simp: insert_visitor_ip_log_def and_then_def)
  next
    case False
    then have "detect_ip_anomalies dp sees (visitor_ip_logs db) new =
        Inl Foreign_key_violation"
      by (simp add: detect_ip_anomalies_def and_then_def check_tor_def check_vpn_def
          check_hosting_def insert_anomaly_before_insert rapid)
    with False show ?thesis
      by (simp add: insert_visitor_ip_log_def and_then_def)
  qed
  then have "insert_all dp sees db (new # rows) = insert_all dp sees db rows"
    by (simp split: if_splits)
  with aborted show ?thesis
    by (simp only: insert_all_records_nothing simp_thms)
qed

theorem rapid_location_change_aborts_insert_witness:
  "visitor_ip_logs (insert_all exact sees_none empty_database
      [visit_at 1 (Some 5) 90 0, visit_at 2 (Some 5) 0 30000000]) =
     [visit_at 1 (Some 5) 90 0, visit_at 2 (Some 5) 0 30000000] \<and>
   insert_visitor_ip_log exact sees_all
     (insert_all exact sees_none empty_database
        [visit_at 1 (Some 5) 90 0, visit_at 2 (Some 5) 0 30000000])
     (visit_at 3 (Some 5) 90 60000000) = Inl Foreign_key_violation \<and>
   ip_anomaly_detection
     (insert_all exact sees_all
        (insert_all exact sees_none empty_database
           [visit_at 1 (Some 5) 90 0, visit_at 2 (Some 5) 0 30000000])
        [visit_at 3 (Some 5) 90 60000000]) = []"
proof -
  define db where "db = insert_all exact sees_none empty_database
    [visit_at 1 (Some 5) 90 0, visit_at 2 (Some 5) 0 30000000]"
  define prev where "prev = visit_at 2 (Some 5) 0 30000000"
  define new where "new = visit_at 3 (Some 5) 90 60000000"
  have logs: "visitor_ip_logs db = [visit_at 1 (Some 5) 90 0, prev]"
    by (simp add: db_def prev_def insert_eval)
  have none: "ip_anomaly_detection db = []"
    by (simp add: db_def insert_eval)
  have seen: "prev \<in> set (sees_all (visitor_ip_logs db))"
    unfolding logs by (simp add: sees_all_def)
  have recent: "\<forall>r \<in> set (sees_all (visitor_ip_logs db)).
      r = prev \<or> log_id r = log_id new \<or> log_tracking_link_id r \<noteq> Some 5 \<or>
      log_session_id r \<noteq> Some ''s'' \<or> log_latitude r = None \<or>
      log_longitude r = None \<or> (\<exists>t. log_created_at r = Some t \<and> t < 30000000)"
    unfolding logs by (simp add: sees_all_def prev_def new_def visit_at_def)
  have fresh: "log_id new \<notin> set (map log_id (visitor_ip_logs db))"
    unfolding logs by (simp add: prev_def new_def visit_at_def)
  have rows: "log_id prev \<noteq> log_id new"
    "log_tracking_link_id prev = Some 5" "log_tracking_link_id new = Some 5"
    "log_session_id prev = Some ''s''" "log_session_id new = Some ''s''"
    "log_latitude prev = Some 0" "log_longitude prev = Some 0"
    "log_created_at prev = Some 30000000"
    "log_latitude new = Some 0" "log_longitude new = Some 90"
    "log_created_at new = Some 60000000" "60000000 - 30000000 < one_hour"
    by (simp_all add: prev_def new_def visit_at_def one_hour_def)
  from rapid_location_change_aborts_insert
    [of prev sees_all db new 5 "''s''" 0 0 30000000 0 90 60000000 exact
        "6371 * (pi / 2)" "[]", OF seen rows(1-8) recent rows(9-12)
        distance_quarter_equator quarter_equator_gt_500]
  have "(if log_id new \<in> set (map log_id (visitor_ip_logs db))
         then insert_visitor_ip_log exact sees_all db new = Inl Unique_violation
         else insert_visitor_ip_log exact sees_all db new = Inl Foreign_key_violation) \<and>
      insert_all exact sees_all db [new] = insert_all exact sees_all db [] \<and>
      ip_anomaly_detection (insert_all exact sees_all db [new]) = ip_anomaly_detection db" .
  with fresh none
  have "insert_visitor_ip_log exact sees_all db new = Inl Foreign_key_violation \<and>
      ip_anomaly_detection (insert_all exact sees_all db [new]) = []"
    by simp
  with logs show ?thesis
    unfolding db_def prev_def new_def by blast
qed

section \<open>Properties of the session trigger\<close>

lemma detect_ip_anomalies_keeps:
  assumes "detect_ip_anomalies dp sees tbl row = Inr (inserted, new)"
  shows "log_id new = log_id row"
    and "log_tracking_link_id new = log_tracking_link_id row"
    and "log_session_id new = log_session_id row"
    and "log_ip_address new = log_ip_address row"
  using assms
  by (auto simp: detect_ip_anomalies_def and_then_def split: sum.splits prod.splits)

lemma fold_max_upper: "i \<in> set used \<Longrightarrow> i \<le> fold max used (b::nat)"
proof (induction used arbitrary: b)
  case Nil
  then show ?case by simp
next
  case (Cons x xs)
  have mono: "\<And>c. c \<le> fold max xs c"
  proof -
    fix c :: nat show "c \<le> fold max xs c"
    proof (induction xs arbitrary: c)
      case Nil
      then show ?case by simp
    next
      case (Cons y ys)
      have "c \<le> max y c" by simp
      also have "\<dots> \<le> fold max ys (max y c)" by (rule Cons.IH)
      finally show ?case by simp
    qed
  qed
  show ?case
  proof (cases "i = x")
    case True
    have "x \<le> max x b" by simp
    also have "\<dots> \<le> fold max xs (max x b)" by (rule mono)
    finally show ?thesis using True by simp
  next
    case False
    with Cons.prems have "i \<in> set xs" by simp
    from Cons.IH [OF this] show ?thesis by simp
  qed
qed

lemma gen_random_uuid_fresh: "gen_random_uuid used \<notin> set used"
proof
  assume "gen_random_uuid used \<in> set used"
  from fold_max_upper [OF this, of 0] show False
    by (simp add: gen_random_uuid_def)
qed

lemma session_where_iff:
  "session_where new v \<longleftrightarrow>
     (\<exists>link session. log_tracking_link_id new = Some link \<and> log_session_id new = Some session \<and>
        session_for link session v)"
  by (auto simp: session_where_def session_for_def sql_eq_def split: option.splits)

lemma count_list_append_unless_present:
  "count_list (append_unless_present (Some x) array) (Some a) =
     (if a = x \<and> Some x \<notin> set array then 1 else count_list array (Some a))"
  by (auto simp: append_unless_present_def sql_any_def count_list_0_iff)

lemma update_session_row_keeps:
  "vs_id (update_session_row new v) = vs_id v"
  "session_for link session (update_session_row new v) = session_for link session v"
  by (simp_all add: update_session_row_def session_for_def)

lemma summarises_new_session:
  assumes "log_tracking_link_id new = Some link" "log_session_id new = Some session"
  shows "summarises [new]
     [\<lparr>vs_id = i, vs_tracking_link_id = log_tracking_link_id new, vs_session_id = session,
       vs_ip_address = log_ip_address new, vs_first_visit = log_created_at new,
       vs_last_visit = log_created_at new, vs_total_visits = Some 1,
       vs_total_page_views = log_page_views new,
       vs_unique_ips = [Some (log_ip_address new)], vs_countries = [log_country new],
       vs_user_agents = [log_user_agent new], vs_is_suspicious = log_is_suspicious new\<rparr>]"
  by (simp add: summarises_def)

lemma summarises_update:
  assumes "summarises L [v]"
  shows "summarises (L @ [new]) [update_session_row new v]"
proof -
  from assms have L: "L \<noteq> []" by (auto simp: summarises_def split: if_splits)
  with assms have tv: "vs_total_visits v = Some (int (length L))"
    and ips: "\<And>a. count_list (vs_unique_ips v) (Some a) =
                    (if a \<in> set (map log_ip_address L) then 1 else 0)"
    by (auto simp: summarises_def)
  have present: "Some a \<in> set (vs_unique_ips v) \<longleftrightarrow> a \<in> set (map log_ip_address L)" for a
  proof -
    have "Some a \<in> set (vs_unique_ips v) \<longleftrightarrow> count_list (vs_unique_ips v) (Some a) \<noteq> 0"
      by (simp add: count_list_0_iff)
    then show ?thesis by (simp add: ips)
  qed
  have "vs_total_visits (update_session_row new v) = Some (int (length (L @ [new])))"
    using tv by (simp add: update_session_row_def sql_plus_def)
  moreover have "count_list (vs_unique_ips (update_session_row new v)) (Some a) =
      (if a \<in> set (map log_ip_address (L @ [new])) then 1 else 0)" for a
    using ips [of a] present [of "log_ip_address new"]
    by (auto simp: update_session_row_def count_list_append_unless_present)
  ultimately show ?thesis
    by (simp add: summarises_def)
qed

lemma find_Some_member: "find P xs = Some x \<Longrightarrow> x \<in> set xs \<and> P x"
  by (induction xs) (auto split: if_splits)

lemma summarises_no_session: "summarises L [] \<Longrightarrow> L = []"
  by (auto simp: summarises_def split: if_splits)

lemma summarises_one_session: "summarises L S \<Longrightarrow> v \<in> set S \<Longrightarrow> S = [v]"
  by (auto simp: summarises_def split: if_splits)

lemma update_visitor_session_aggregate:
  assumes dist: "distinct (map vs_id ss)"
    and inv: "\<And>link session.
      summarises (filter (log_in_session link session) logs) (filter (session_for link session) ss)"
    and upd: "update_visitor_session ss new = Inr ss'"
  shows "distinct (map vs_id ss')"
    and "log_session_id new \<noteq> None"
    and "summarises (filter (log_in_session link session) (logs @ [new]))
           (filter (session_for link session) ss')"
proof -
  let ?L = "filter (log_in_session link session) logs"
  let ?S = "filter (session_for link session) ss"
  have all: "distinct (map vs_id ss') \<and> log_session_id new \<noteq> None \<and>
    summarises (filter (log_in_session link session) (logs @ [new]))
      (filter (session_for link session) ss')"
  proof (cases "find (session_where new) ss")
    case None
    with upd obtain sid where sid: "log_session_id new = Some sid"
      and ss': "ss' = ss @
         [\<lparr>vs_id = gen_random_uuid (map vs_id ss),
           vs_tracking_link_id = log_tracking_link_id new, vs_session_id = sid,
           vs_ip_address = log_ip_address new, vs_first_visit = log_created_at new,
           vs_last_visit = log_created_at new, vs_total_visits = Some 1,
           vs_total_page_views = log_page_views new,
           vs_unique_ips = [Some (log_ip_address new)], vs_countries = [log_country new],
           vs_user_agents = [log_user_agent new], vs_is_suspicious = log_is_suspicious new\<rparr>]"
      by (auto simp: update_visitor_session_def split: option.splits)
    from None have nomatch: "\<And>v. v \<in> set ss \<Longrightarrow> \<not> session_where new v"
      by (simp add: find_None_iff)
    have d: "distinct (map vs_id ss')"
      using dist gen_random_uuid_fresh [of "map vs_id ss"] by (simp add: ss')
    have s: "summarises (filter (log_in_session link session) (logs @ [new]))
      (filter (session_for link session) ss')"
    proof (cases "log_in_session link session new")
      case True
      then have k: "log_tracking_link_id new = Some link" "log_session_id new = Some session"
        by (simp_all add: log_in_session_def)
      with sid have [simp]: "sid = session" by simp
      have "?S = []"
        using nomatch k by (auto simp: filter_empty_conv session_where_iff)
      moreover from this inv [of link session] have "?L = []"
        by (simp add: summarises_no_session)
      ultimately show ?thesis
        using True k summarises_new_session [OF k]
        by (simp add: ss' session_for_def)
    next
      case False
      then have "\<not> session_for link session
         \<lparr>vs_id = gen_random_uuid (map vs_id ss),
           vs_tracking_link_id = log_tracking_link_id new, vs_session_id = sid,
           vs_ip_address = log_ip_address new, vs_first_visit = log_created_at new,
           vs_last_visit = log_created_at new, vs_total_visits = Some 1,
           vs_total_page_views = log_page_views new,
           vs_unique_ips = [Some (log_ip_address new)], vs_countries = [log_country new],
           vs_user_agents = [log_user_agent new], vs_is_suspicious = log_is_suspicious new\<rparr>"
        using sid by (simp add: session_for_def log_in_session_def)
      with False inv [of link session] show ?thesis
        by (simp add: ss')
    qed
    from d s sid show ?thesis by simp
  next
    case (Some sr)
    let ?f = "\<lambda>v. if vs_id v = vs_id sr then update_session_row new v else v"
    from Some upd have ss': "ss' = map ?f ss"
      by (simp add: update_visitor_session_def)
    from Some have sr: "sr \<in> set ss" "session_where new sr"
      by (auto dest: find_Some_member)
    then obtain l0 s0 where k: "log_tracking_link_id new = Some l0" "log_session_id new = Some s0"
      "session_for l0 s0 sr"
      by (auto simp: session_where_iff)
    have same: "v = sr" if "v \<in> set ss" "vs_id v = vs_id sr" for v
      using dist that sr(1) by (auto simp: distinct_map dest: inj_onD)
    have d: "distinct (map vs_id ss')"
    proof -
      have "map vs_id ss' = map vs_id ss"
        by (simp add: ss' update_session_row_keeps)
      with dist show ?thesis by simp
    qed
    have fm: "filter (session_for link session) ss' = map ?f ?S"
      by (simp add: ss' filter_map comp_def update_session_row_keeps)
    have s: "summarises (filter (log_in_session link session) (logs @ [new]))
      (filter (session_for link session) ss')"
    proof (cases "link = l0 \<and> session = s0")
      case True
      with sr k have "sr \<in> set ?S" by simp
      from summarises_one_session [OF inv this] have S: "?S = [sr]" .
      with inv [of link session] have "summarises ?L [sr]" by simp
      from summarises_update [OF this, of new]
      have "summarises (?L @ [new]) [update_session_row new sr]" .
      moreover have "filter (session_for link session) ss' = [update_session_row new sr]"
        unfolding fm S by simp
      moreover have "filter (log_in_session link session) (logs @ [new]) = ?L @ [new]"
        using True k by (simp add: log_in_session_def)
      ultimately show ?thesis by simp
    next
      case False
      have "map ?f ?S = ?S"
      proof (rule map_idI)
        fix v assume v: "v \<in> set ?S"
        have "vs_id v \<noteq> vs_id sr"
        proof
          assume "vs_id v = vs_id sr"
          with v same have "v = sr" by simp
          with v k False show False by (auto simp: session_for_def)
        qed
        then show "?f v = v" by simp
      qed
      moreover have "\<not> log_in_session link session new"
        using False k by (auto simp: log_in_session_def)
      ultimately show ?thesis
        using inv [of link session] by (simp add: fm)
    qed
    from d s k show ?thesis by simp
  qed
  from all show "distinct (map vs_id ss')" by simp
  from all show "log_session_id new \<noteq> None" by simp
  from all show "summarises (filter (log_in_session link session) (logs @ [new]))
           (filter (session_for link session) ss')" by simp
qed

lemma insert_visitor_ip_log_aggregate:
  assumes "sessions_aggregate db" and "insert_visitor_ip_log dp sees db row = Inr db'"
  shows "sessions_aggregate db'"
proof -
  from assms(2) obtain inserted new ss' where
    upd: "update_visitor_session (visitor_sessions db) new = Inr ss'"
    and logs': "visitor_ip_logs db' = visitor_ip_logs db @ [new]"
    and sess': "visitor_sessions db' = ss'"
    by (auto simp: insert_visitor_ip_log_def and_then_def
        split: prod.splits if_splits sum.splits)
  from assms(1) have dist: "distinct (map vs_id (visitor_sessions db))"
    and nn: "\<forall>r \<in> set (visitor_ip_logs db). log_session_id r \<noteq> None"
    and inv: "\<And>link session.
      summarises (filter (log_in_session link session) (visitor_ip_logs db))
        (filter (session_for link session) (visitor_sessions db))"
    by (simp_all add: sessions_aggregate_def)
  from update_visitor_session_aggregate [OF dist inv upd] nn
  show ?thesis
    by (simp add: sessions_aggregate_def logs' sess')
qed

lemma insert_all_aggregate:
  "sessions_aggregate db \<Longrightarrow> sessions_aggregate (insert_all dp sees db rows)"
proof (induction rows arbitrary: db)
  case Nil
  then show ?case by simp
next
  case (Cons row rows)
  show ?case
  proof (cases "insert_visitor_ip_log dp sees db row")
    case (Inl e)
    with Cons show ?thesis by simp
  next
    case (Inr db')
    with Cons.prems have "sessions_aggregate db'"
      by (rule_tac insert_visitor_ip_log_aggregate)
    from Cons.IH [OF this] Inr show ?thesis by simp
  qed
qed

lemma empty_database_aggregate: "sessions_aggregate empty_database"
  by (simp add: sessions_aggregate_def empty_database_def summarises_def)

text \<open>
  Claim C8, as stated, after two inserts of visits of session \<open>s\<close> that carry no tracking
  link: both log rows have the pair (NULL, \<open>s\<close>), yet \<open>visitor_sessions\<close> holds two rows for
  that pair, each with \<open>total_visits\<close> 1, because the lookup
  \<open>tracking_link_id = NEW.tracking_link_id\<close> never finds a row whose link is NULL. It is
  so whether the inserting role sees the rows of \<open>visitor_ip_logs\<close> or not.
\<close>

theorem visitor_sessions_null_link_counterexample:
  "map log_tracking_link_id
     (visitor_ip_logs (insert_all exact sees_all empty_database
        [visit_at 1 None 0 0, visit_at 2 None 0 60000000])) = [None, None] \<and>
   map log_session_id
     (visitor_ip_logs (insert_all exact sees_all empty_database
        [visit_at 1 None 0 0, visit_at 2 None 0 60000000])) = [Some ''s'', Some ''s''] \<and>
   map vs_tracking_link_id
     (visitor_sessions (insert_all exact sees_all empty_database
        [visit_at 1 None 0 0, visit_at 2 None 0 60000000])) = [None, None] \<and>
   map vs_session_id
     (visitor_sessions (insert_all exact sees_all empty_database
        [visit_at 1 None 0 0, visit_at 2 None 0 60000000])) = [''s'', ''s''] \<and>
   map vs_total_visits
     (visitor_sessions (insert_all exact sees_all empty_database
        [visit_at 1 None 0 0, visit_at 2 None 0 60000000])) = [Some 1, Some 1] \<and>
   map vs_total_visits
     (visitor_sessions (insert_all exact sees_none empty_database
        [visit_at 1 None 0 0, visit_at 2 None 0 60000000])) = [Some 1, Some 1]"
  by (simp add: insert_eval)

text \<open>
  Claim C8, amended. After any sequence of inserts into \<open>visitor_ip_logs\<close>, starting from
  empty tables, every log row has a \<open>session_id\<close>, and for every log row with a non-NULL
  \<open>tracking_link_id\<close> there is exactly one \<open>visitor_sessions\<close> row with its pair
  (\<open>tracking_link_id\<close>, \<open>session_id\<close>); the \<open>total_visits\<close> of that row is the number of log
  rows with the pair, and its \<open>unique_ips\<close> array contains each address of those rows
  exactly once and no other address. It is so for every rounding of the double precision
  arithmetic, for every inserting role, and whichever of the statements were aborted.
\<close>

theorem visitor_sessions_aggregate_logs:
  assumes "r \<in> set (visitor_ip_logs (insert_all dp sees empty_database rows))"
    and "log_tracking_link_id r = Some link"
  shows "\<exists>session v.
      log_session_id r = Some session \<and>
      filter (session_for link session)
        (visitor_sessions (insert_all dp sees empty_database rows)) = [v] \<and>
      vs_total_visits v =
        Some (int (length (filter (log_in_session link session)
          (visitor_ip_logs (insert_all dp sees empty_database rows))))) \<and>
      (\<forall>a. count_list (vs_unique_ips v) (Some a) =
         (if a \<in> set (map log_ip_address (filter (log_in_session link session)
                 (visitor_ip_logs (insert_all dp sees empty_database rows))))
          then 1 else 0))"
proof -
  let ?db = "insert_all dp sees empty_database rows"
  have agg: "sessions_aggregate ?db"
    by (rule insert_all_aggregate) (rule empty_database_aggregate)
  with assms(1) obtain session where s: "log_session_id r = Some session"
    by (auto simp: sessions_aggregate_def)
  let ?L = "filter (log_in_session link session) (visitor_ip_logs ?db)"
  from assms s have "?L \<noteq> []"
    by (auto simp: filter_empty_conv log_in_session_def)
  moreover from agg have
    "summarises ?L (filter (session_for link session) (visitor_sessions ?db))"
    by (simp add: sessions_aggregate_def)
  ultimately show ?thesis
    using s by (auto simp: summarises_def)
qed

theorem visitor_sessions_aggregate_logs_witness:
  "\<exists>v. filter (session_for 5 ''s'')
          (visitor_sessions (insert_all exact sees_all empty_database
             [visit_at 1 (Some 5) 0 0, visit_at 2 (Some 5) 0 60000000])) = [v] \<and>
        vs_total_visits v = Some 2 \<and>
        count_list (vs_unique_ips v) (Some ''203.0.113.7'') = 1"
proof -
  let ?db = "insert_all exact sees_all empty_database
    [visit_at 1 (Some 5) 0 0, visit_at 2 (Some 5) 0 60000000]"
  have logs: "visitor_ip_logs ?db = [visit_at 1 (Some 5) 0 0, visit_at 2 (Some 5) 0 60000000]"
    by (simp add: insert_eval)
  then have mem: "visit_at 1 (Some 5) 0 0 \<in> set (visitor_ip_logs ?db)"
    by simp
  have link: "log_tracking_link_id (visit_at 1 (Some 5) 0 0) = Some 5"
    by (simp add: visit_at_def)
  from visitor_sessions_aggregate_logs [OF mem link] obtain session v where
    "log_session_id (visit_at 1 (Some 5) 0 0) = Some session"
    "filter (session_for 5 session) (visitor_sessions ?db) = [v]"
    "vs_total_visits v =
       Some (int (length (filter (log_in_session 5 session) (visitor_ip_logs ?db))))"
    "\<forall>a. count_list (vs_unique_ips v) (Some a) =
       (if a \<in> set (map log_ip_address (filter (log_in_session 5 session)
               (visitor_ip_logs ?db))) then 1 else 0)"
    by blast
  then show ?thesis
    unfolding logs by (auto simp: visit_at_def log_in_session_def)
qed

section \<open>Properties of the row-level security policies\<close>

lemma in_own_iff: "in_own x t (Authenticated u) \<longleftrightarrow> belongs_to t x u"
  by (auto simp: in_own_def belongs_to_def list_ex_iff sql_eq_def split: option.splits)

lemma uid_is_user_id_iff:
  "sql_eq (Some u) (row_user_id row) \<longleftrightarrow> row_user_id row = Some u"
  by (auto simp: sql_eq_def split: option.splits)

lemmas rls_eval =
  using_ok_def check_ok_def permitted_def applies_def dated_policies_def current_policies_def
  policies_20250619163936_def policies_20250619175042_def policies_global_sharing_def
  in_own_iff uid_is_user_id_iff

lemma dated_policies_authenticated:
  "permitted dated_policies (Authenticated u) cmd t \<Longrightarrow>
     can_access dated_policies db (Authenticated u) cmd t row \<longleftrightarrow> owned_by db u t row"
  by (cases cmd; cases t) (simp_all add: rls_eval)

lemma current_policies_tracking_links:
  "can_access current_policies db (Authenticated u) cmd Ip_tracking_links row \<longleftrightarrow>
     row_user_id row = Some u"
  by (cases cmd) (simp_all add: rls_eval)

lemma current_policies_visitor_tables:
  assumes "t = Visitor_ip_logs \<or> t = Visitor_sessions \<or> t = Ip_anomaly_detection"
  shows "can_access current_policies db (Authenticated u) cmd t row \<longleftrightarrow>
     cmd = Select \<and> owned_by db u t row"
  using assms by (cases cmd) (auto simp: rls_eval)

lemma current_policies_analysis_tables:
  assumes "t = Ip_analysis_sessions \<or> t = Performance_diagnostics \<or> t = Program_analysis \<or>
    t = Diagnostic_sessions"
  shows "can_access current_policies db (Authenticated u) cmd t row \<longleftrightarrow>
     cmd = Select \<or> cmd = Delete \<or> row_user_id row = Some u"
  using assms by (cases cmd) (auto simp: rls_eval)

lemma current_policies_analysis_results:
  "can_access current_policies db (Authenticated u) cmd Ip_analysis_results row"
  by (cases cmd) (simp_all add: rls_eval)

lemma current_policies_anon:
  "can_access current_policies db Anon cmd t row \<longleftrightarrow>
     t = Visitor_sessions \<or> cmd = Insert \<and> (t = Visitor_ip_logs \<or> t = Ip_anomaly_detection)"
  by (cases cmd; cases t) (simp_all add: rls_eval)

text \<open>
  Claim C5, as stated, at the \<open>anon\<close> role reading \<open>visitor_sessions\<close>: the policy of lines
  155-160 permits the operation and lets the caller select a session row of a tracking
  link that belongs to user 7, a row the caller does not own. This holds for the
  policies of the two dated migrations and for the policies after all migrations.
\<close>

theorem rls_anon_reads_sessions_counterexample:
  "permitted dated_policies Anon Select Visitor_sessions \<and>
   can_access dated_policies \<lparr>ip_tracking_links = [(1, Some 7)], ip_analysis_sessions = []\<rparr>
     Anon Select Visitor_sessions
     \<lparr>row_user_id = None, row_tracking_link_id = Some 1, row_session_id = None\<rparr> \<and>
   \<not> owned \<lparr>ip_tracking_links = [(1, Some 7)], ip_analysis_sessions = []\<rparr>
     Anon Visitor_sessions
     \<lparr>row_user_id = None, row_tracking_link_id = Some 1, row_session_id = None\<rparr> \<and>
   permitted current_policies Anon Select Visitor_sessions \<and>
   can_access current_policies \<lparr>ip_tracking_links = [(1, Some 7)], ip_analysis_sessions = []\<rparr>
     Anon Select Visitor_sessions
     \<lparr>row_user_id = None, row_tracking_link_id = Some 1, row_session_id = None\<rparr>"
  by (simp add: rls_eval)

text \<open>
  Claim C5, amended. Every table has row-level security, with policies keyed on the
  caller's role and \<open>auth.uid()\<close>.
  Under the policies of the two dated migrations, for an authenticated caller and every
  operation the policies permit, the rows the caller can read or write are exactly those
  it owns (directly, through a tracking link it owns, or through an analysis session it
  owns).
  Under the policies in force after the global-sharing migration, an authenticated
  caller can read and write exactly its own \<open>ip_tracking_links\<close> rows; can only select
  from \<open>visitor_ip_logs\<close>, \<open>visitor_sessions\<close> and \<open>ip_anomaly_detection\<close>, and exactly the
  rows of its own tracking links; can select and delete every row of
  \<open>ip_analysis_sessions\<close>, \<open>performance_diagnostics\<close>, \<open>program_analysis\<close> and
  \<open>diagnostic_sessions\<close>, and insert or update exactly rows carrying its own \<open>user_id\<close>;
  and can read and write every row of \<open>ip_analysis_results\<close>.
  The \<open>anon\<close> role can read and write every \<open>visitor_sessions\<close> row and insert any row into
  \<open>visitor_ip_logs\<close> and \<open>ip_anomaly_detection\<close>, and nothing else.
\<close>

theorem rls_policies_by_role:
  "(permitted dated_policies (Authenticated u) cmd t \<longrightarrow>
      (can_access dated_policies db (Authenticated u) cmd t row \<longleftrightarrow> owned_by db u t row)) \<and>
   (can_access current_policies db (Authenticated u) cmd Ip_tracking_links row \<longleftrightarrow>
      row_user_id row = Some u) \<and>
   (t = Visitor_ip_logs \<or> t = Visitor_sessions \<or> t = Ip_anomaly_detection \<longrightarrow>
      (can_access current_policies db (Authenticated u) cmd t row \<longleftrightarrow>
         cmd = Select \<and> owned_by db u t row)) \<and>
   (t = Ip_analysis_sessions \<or> t = Performance_diagnostics \<or> t = Program_analysis \<or>
    t = Diagnostic_sessions \<longrightarrow>
      (can_access current_policies db (Authenticated u) cmd t row \<longleftrightarrow>
         cmd = Select \<or> cmd = Delete \<or> row_user_id row = Some u)) \<and>
   can_access current_policies db (Authenticated u) cmd Ip_analysis_results row \<and>
   (can_access current_policies db Anon cmd t row \<longleftrightarrow>
      t = Visitor_sessions \<or> cmd = Insert \<and> (t = Visitor_ip_logs \<or> t = Ip_anomaly_detection))"
  using dated_policies_authenticated [of u cmd t db row]
    current_policies_tracking_links [of db u cmd row]
    current_policies_visitor_tables [of t db u cmd row]
    current_policies_analysis_tables [of t db u cmd row]
    current_policies_analysis_results [of db u cmd row]
    current_policies_anon [of db cmd t row]
  by blast

theorem rls_policies_by_role_witness:
  "permitted dated_policies (Authenticated 7) Select Visitor_ip_logs \<and>
   can_access dated_policies \<lparr>ip_tracking_links = [(1, Some 7)], ip_analysis_sessions = []\<rparr>
     (Authenticated 7) Select Visitor_ip_logs
     \<lparr>row_user_id = None, row_tracking_link_id = Some 1, row_session_id = None\<rparr> \<and>
   owned_by \<lparr>ip_tracking_links = [(1, Some 7)], ip_analysis_sessions = []\<rparr> 7 Visitor_ip_logs
     \<lparr>row_user_id = None, row_tracking_link_id = Some 1, row_session_id = None\<rparr> \<and>
   can_access current_policies \<lparr>ip_tracking_links = [(1, Some 7)], ip_analysis_sessions = []\<rparr>
     (Authenticated 8) Select Ip_analysis_sessions
     \<lparr>row_user_id = Some 7, row_tracking_link_id = None, row_session_id = None\<rparr>"
proof -
  let ?db = "\<lparr>ip_tracking_links = [(1, Some 7)], ip_analysis_sessions = []\<rparr>"
  let ?log = "\<lparr>row_user_id = None, row_tracking_link_id = Some 1, row_session_id = None\<rparr>"
  let ?analysis = "\<lparr>row_user_id = Some 7, row_tracking_link_id = None, row_session_id = None\<rparr>"
  have p: "permitted dated_policies (Authenticated 7) Select Visitor_ip_logs"
    by (simp add: permitted_def applies_def dated_policies_def policies_20250619163936_def
        policies_20250619175042_def)
  have o: "owned_by ?db 7 Visitor_ip_logs ?log"
    by (simp add: belongs_to_def)
  from rls_policies_by_role [of 7 Select Visitor_ip_logs ?db ?log] p o
  have "can_access dated_policies ?db (Authenticated 7) Select Visitor_ip_logs ?log"
    by blast
  moreover from rls_policies_by_role [of 8 Select Ip_analysis_sessions ?db ?analysis]
  have "can_access current_policies ?db (Authenticated 8) Select Ip_analysis_sessions ?analysis"
    by blast
  ultimately show ?thesis
    using p o by blast
qed

end
